theory Spec2Isabelle
  imports Complex_Main "HOL-Library.Word"
begin

section \<open>JavaScript values, strings and exceptions\<close>

text \<open>
  The values that travel through the generation endpoint are JSON values plus
  \<open>undefined\<close>. Numbers are modelled as reals: every finite double is a real, and
  \<open>NaN\<close> and the infinities cannot be written in JSON. Strings are byte lists:
  the UTF-8 encoding of the text. \<open>JFunction f\<close> is the built-in function named
  \<open>f\<close>; such a value is met only as an inherited member of an object literal.
\<close>

datatype json =
    JUndefined
  | JNull
  | JBool bool
  | JNum real
  | JStr string
  | JArr "json list"
  | JObj "(string \<times> json) list"
  | JFunction string

text \<open>JavaScript truthiness (\<open>!!v\<close>).\<close>

fun truthy :: "json \<Rightarrow> bool" where
  "truthy JUndefined = False"
| "truthy JNull = False"
| "truthy (JBool b) = b"
| "truthy (JNum n) = (n \<noteq> 0)"
| "truthy (JStr s) = (s \<noteq> [])"
| "truthy (JArr xs) = True"
| "truthy (JObj kvs) = True"
| "truthy (JFunction f) = True"

text \<open>An optional string (\<open>string | undefined\<close>) is truthy when it is present
  and not empty.\<close>

definition truthy_str :: "string option \<Rightarrow> bool" where
  "truthy_str s = (case s of None \<Rightarrow> False | Some t \<Rightarrow> t \<noteq> [])"

text \<open>A thrown value: an \<open>Error\<close> with its message, or anything else.\<close>

datatype thrown = Error string | Thrown_other

text \<open>\<open>Array.prototype.join\<close>.\<close>

fun join :: "string \<Rightarrow> string list \<Rightarrow> string" where
  "join sep [] = []"
| "join sep [x] = x"
| "join sep (x # y # ys) = x @ sep @ join sep (y # ys)"

text \<open>\<open>String(v)\<close>, as the \<open>Error\<close> constructor and \<open>join\<close> apply it. The
  decimal form of a number is the platform's \<open>Number.prototype.toString\<close>, taken
  as the parameter \<open>nts\<close>; the text of a built-in function is the one V8 prints.\<close>

fun js_to_string :: "(real \<Rightarrow> string) \<Rightarrow> json \<Rightarrow> string" where
  "js_to_string nts JUndefined = ''undefined''"
| "js_to_string nts JNull = ''null''"
| "js_to_string nts (JBool b) = (if b then ''true'' else ''false'')"
| "js_to_string nts (JNum n) = nts n"
| "js_to_string nts (JStr s) = s"
| "js_to_string nts (JArr xs) =
     join '','' (map (\<lambda>x. if x = JUndefined \<or> x = JNull then [] else js_to_string nts x) xs)"
| "js_to_string nts (JObj kvs) = ''[object Object]''"
| "js_to_string nts (JFunction f) = ''function '' @ f @ ''() { [native code] }''"

text \<open>Template-literal formatting of a non-negative integer (an HTTP status,
  a seed).\<close>

definition digit_char :: "nat \<Rightarrow> char" where
  "digit_char d = ''0123456789'' ! d"

fun show_nat :: "nat \<Rightarrow> string" where
  "show_nat n = (if n < 10 then [digit_char n] else show_nat (n div 10) @ [digit_char (n mod 10)])"

declare show_nat.simps [simp del]

text \<open>Property access \<open>v.k\<close>: a \<open>TypeError\<close> on \<open>null\<close> and \<open>undefined\<close>, the
  field of an object, and \<open>undefined\<close> otherwise (none of the keys read by the
  client is a property of a primitive or of an array).\<close>

definition get_prop :: "json \<Rightarrow> string \<Rightarrow> thrown + json" where
  "get_prop v k =
     (case v of
        JUndefined \<Rightarrow>
          Inl (Error (''Cannot read properties of undefined (reading '' @ [CHR 0x27] @ k @ [CHR 0x27] @ '')''))
      | JNull \<Rightarrow>
          Inl (Error (''Cannot read properties of null (reading '' @ [CHR 0x27] @ k @ [CHR 0x27] @ '')''))
      | JObj kvs \<Rightarrow> (case map_of kvs k of None \<Rightarrow> Inr JUndefined | Some x \<Rightarrow> Inr x)
      | _ \<Rightarrow> Inr JUndefined)"

text \<open>Optional chaining \<open>v?.k\<close>.\<close>

definition opt_prop :: "json \<Rightarrow> string \<Rightarrow> json" where
  "opt_prop v k =
     (case v of
        JObj kvs \<Rightarrow> (case map_of kvs k of None \<Rightarrow> JUndefined | Some x \<Rightarrow> x)
      | _ \<Rightarrow> JUndefined)"

text \<open>Indexing an object literal whose own properties are the string entries of
  \<open>table\<close>: a key that is not an own property is looked up in
  \<open>Object.prototype\<close>, whose members are built-in functions, and whose
  \<open>__proto__\<close> accessor gives \<open>Object.prototype\<close> itself (an object with no
  enumerable property).\<close>

definition object_prototype :: "(string \<times> json) list" where
  "object_prototype =
     [(''constructor'', JFunction ''Object''),
      (''__defineGetter__'', JFunction ''__defineGetter__''),
      (''__defineSetter__'', JFunction ''__defineSetter__''),
      (''hasOwnProperty'', JFunction ''hasOwnProperty''),
      (''__lookupGetter__'', JFunction ''__lookupGetter__''),
      (''__lookupSetter__'', JFunction ''__lookupSetter__''),
      (''isPrototypeOf'', JFunction ''isPrototypeOf''),
      (''propertyIsEnumerable'', JFunction ''propertyIsEnumerable''),
      (''toString'', JFunction ''toString''),
      (''valueOf'', JFunction ''valueOf''),
      (''toLocaleString'', JFunction ''toLocaleString''),
      (''__proto__'', JObj [])]"

definition literal_lookup :: "(string \<times> string) list \<Rightarrow> string \<Rightarrow> json" where
  "literal_lookup table k =
     (case map_of table k of
        Some d \<Rightarrow> JStr d
      | None \<Rightarrow> (case map_of object_prototype k of Some v \<Rightarrow> v | None \<Rightarrow> JUndefined))"

text \<open>\<open>String.prototype.includes\<close>, \<open>split(sep)\<close> on one character,
  \<open>replace\<close> of the first occurrence of one character, and \<open>trim\<close>.\<close>

fun starts_with :: "string \<Rightarrow> string \<Rightarrow> bool" where
  "starts_with [] s = True"
| "starts_with (p # ps) [] = False"
| "starts_with (p # ps) (c # cs) = (p = c \<and> starts_with ps cs)"

fun str_includes :: "string \<Rightarrow> string \<Rightarrow> bool" where
  "str_includes [] needle = (needle = [])"
| "str_includes (c # cs) needle = (starts_with needle (c # cs) \<or> str_includes cs needle)"

fun split_char :: "char \<Rightarrow> string \<Rightarrow> string list" where
  "split_char sep [] = [] # []"
| "split_char sep (c # cs) =
     (if c = sep then [] # split_char sep cs
      else (case split_char sep cs of [] \<Rightarrow> [c] # [] | p # ps \<Rightarrow> (c # p) # ps))"

fun replace_first :: "char \<Rightarrow> char \<Rightarrow> string \<Rightarrow> string" where
  "replace_first a b [] = []"
| "replace_first a b (c # cs) = (if c = a then b # cs else c # replace_first a b cs)"

text \<open>The code points that \<open>trim\<close> strips (the white space and the line
  terminators of ECMAScript), each as its UTF-8 bytes: U+0009 to U+000D, U+0020,
  U+00A0, U+1680, U+2000 to U+200A, U+2028, U+2029, U+202F, U+205F, U+3000 and
  U+FEFF.\<close>

definition js_whitespace :: "string list" where
  "js_whitespace =
     map (\<lambda>c. [c]) [CHR 0x09, CHR 0x0A, CHR 0x0B, CHR 0x0C, CHR 0x0D, CHR 0x20]
     @ [CHR 0xC2, CHR 0xA0]
     # [CHR 0xE1, CHR 0x9A, CHR 0x80]
     # map (\<lambda>c. [CHR 0xE2, CHR 0x80, c])
         [CHR 0x80, CHR 0x81, CHR 0x82, CHR 0x83, CHR 0x84, CHR 0x85, CHR 0x86, CHR 0x87,
          CHR 0x88, CHR 0x89, CHR 0x8A, CHR 0xA8, CHR 0xA9, CHR 0xAF]
     @ [CHR 0xE2, CHR 0x81, CHR 0x9F]
     # [CHR 0xE3, CHR 0x80, CHR 0x80]
     # [CHR 0xEF, CHR 0xBB, CHR 0xBF]
     # []"

text \<open>Removing the leading occurrences of the byte sequences \<open>ws\<close>.\<close>

function strip_leading :: "string list \<Rightarrow> string \<Rightarrow> string" where
  "strip_leading ws s =
     (case find (\<lambda>w. w \<noteq> [] \<and> starts_with w s) ws of
        None \<Rightarrow> s
      | Some w \<Rightarrow> strip_leading ws (drop (length w) s))"
  by pat_completeness auto

termination
proof (relation "measure (\<lambda>(ws, s). length s)")
  show "wf (measure (\<lambda>(ws, s). length s))" by simp
next
  fix ws :: "string list" and s w :: string
  assume "find (\<lambda>w. w \<noteq> [] \<and> starts_with w s) ws = Some w"
  then have w: "w \<noteq> []" "starts_with w s" by (auto simp: find_Some_iff)
  then have "s \<noteq> []" by (cases w) auto
  with w(1) show "((ws, drop (length w) s), (ws, s)) \<in> measure (\<lambda>(ws, s). length s)" by simp
qed

declare strip_leading.simps [simp del]

definition trim :: "string \<Rightarrow> string" where
  "trim s = rev (strip_leading (map rev js_whitespace) (rev (strip_leading js_whitespace s)))"

text \<open>Array indexing \<open>xs[i]\<close>: \<open>undefined\<close> out of range.\<close>

definition str_index :: "string list \<Rightarrow> nat \<Rightarrow> json" where
  "str_index xs i = (if i < length xs then JStr (xs ! i) else JUndefined)"

text \<open>\<open>Math.round\<close> rounds half up; \<open>Math.floor\<close> is \<open>floor\<close>.\<close>

definition js_round :: "real \<Rightarrow> int" where
  "js_round x = \<lfloor>x + 1 / 2\<rfloor>"

subsection \<open>\<open>JSON.stringify\<close>\<close>

definition hex_digit :: "nat \<Rightarrow> char" where
  "hex_digit d = ''0123456789abcdef'' ! d"

definition json_escape_char :: "char \<Rightarrow> string" where
  "json_escape_char c =
     (if c = CHR 0x08 then [CHR 0x5C, CHR ''b'']
      else if c = CHR 0x09 then [CHR 0x5C, CHR ''t'']
      else if c = CHR 0x0A then [CHR 0x5C, CHR ''n'']
      else if c = CHR 0x0C then [CHR 0x5C, CHR ''f'']
      else if c = CHR 0x0D then [CHR 0x5C, CHR ''r'']
      else if c = CHR 0x22 then [CHR 0x5C, CHR 0x22]
      else if c = CHR 0x5C then [CHR 0x5C, CHR 0x5C]
      else if of_char c < (32 :: nat)
        then [CHR 0x5C, CHR ''u'', CHR ''0'', CHR ''0'',
              hex_digit (of_char c div 16), hex_digit (of_char c mod 16)]
      else [c])"

definition json_quote :: "string \<Rightarrow> string" where
  "json_quote s = [CHR 0x22] @ concat (map json_escape_char s) @ [CHR 0x22]"

text \<open>\<open>JSON.stringify(v)\<close> for a value that is neither \<open>undefined\<close> nor a
  function: a field whose value is \<open>undefined\<close> or a function is left out of an
  object, and is \<open>null\<close> in an array.\<close>

fun json_omitted :: "json \<Rightarrow> bool" where
  "json_omitted JUndefined = True"
| "json_omitted (JFunction f) = True"
| "json_omitted v = False"

fun json_stringify :: "(real \<Rightarrow> string) \<Rightarrow> json \<Rightarrow> string" where
  "json_stringify nts JUndefined = ''null''"
| "json_stringify nts JNull = ''null''"
| "json_stringify nts (JBool b) = (if b then ''true'' else ''false'')"
| "json_stringify nts (JNum n) = nts n"
| "json_stringify nts (JStr s) = json_quote s"
| "json_stringify nts (JArr xs) = ''['' @ join '','' (map (json_stringify nts) xs) @ '']''"
| "json_stringify nts (JObj kvs) =
     ''{'' @ join '',''
        (map (\<lambda>kv. json_quote (fst kv) @ '':'' @ json_stringify nts (snd kv))
           (filter (\<lambda>kv. \<not> json_omitted (snd kv)) kvs)) @ ''}''"
| "json_stringify nts (JFunction f) = ''null''"

section \<open>The HTTP boundary\<close>

text \<open>
  A request made with \<open>fetch\<close>: the body is the object handed to \<open>JSON.stringify\<close>.
  A response carries its status, its body text (\<open>response.text()\<close>) and the outcome of
  parsing that text as JSON (\<open>response.json()\<close>): \<open>Inl\<close> the message of the
  \<open>SyntaxError\<close>, \<open>Inr\<close> the parsed value.
\<close>

record http_request =
  req_url :: string
  req_method :: string
  req_headers :: "(string \<times> string) list"
  req_body :: "(string \<times> json) list"

record http_response =
  resp_status :: nat
  resp_text :: string
  resp_json :: "string + json"

definition ok :: "http_response \<Rightarrow> bool" where
  "ok r = (200 \<le> resp_status r \<and> resp_status r \<le> 299)"

text \<open>What the code reaches outside itself: \<open>fetch\<close> (which may reject), the
  number formatter, \<open>Math.random()\<close> and \<open>process.env.BRIA_API_TOKEN\<close>.\<close>

record env =
  fetch :: "http_request \<Rightarrow> thrown + http_response"
  number_to_string :: "real \<Rightarrow> string"
  random :: real
  BRIA_API_TOKEN :: "string option"

record GenerateResponse =
  imageUrl :: json
  seed :: json
  structuredPrompt :: json

text \<open>An asynchronous client call: the requests it sent, in order, and either the
  value it threw or the response it returned.\<close>

type_synonym client_result = "http_request list \<times> (thrown + GenerateResponse)"

section \<open>The Bria client (\<open>lib/bria.ts\<close>)\<close>

text \<open>
  The parameter object \<open>FIBOParams\<close> is declared in \<open>lib/types\<close>; its fields are
  the ones the client and the route read. The five fields that every literal of the
  type in the client supplies are required, the others optional.
\<close>

record camera_params =
  yaw :: real
  pitch :: real
  roll :: real
  fov :: real

record FIBOParams =
  lighting :: string
  composition :: string
  realism_level :: string
  output_format :: string
  camera :: camera_params
  subject_description :: "string option"
  color_palette :: "string option"
  blur_intensity :: "real option"
  new_background :: "string option"
  expand_direction :: "string option"
  expand_amount :: "real option"
  upscale_factor :: "real option"
  hdr_resolution :: "string option"

definition BRIA_API_BASE :: string where
  "BRIA_API_BASE = ''https://engine.prod.bria-api.com/v2''"

definition BRIA_EDIT_BASE :: string where
  "BRIA_EDIT_BASE = ''https://engine.prod.bria-api.com/v2/image/edit''"

definition stripDataUrl :: "string \<Rightarrow> json" where
  "stripDataUrl dataUrl =
     (if str_includes dataUrl '','' then str_index (split_char (CHR '','') dataUrl) 1
      else JStr dataUrl)"

text \<open>The \<open>fetch\<close> options every client function uses: a POST with the JSON
  content type and the token header.\<close>

definition post_request :: "string \<Rightarrow> string \<Rightarrow> (string \<times> json) list \<Rightarrow> http_request" where
  "post_request u tok b =
     \<lparr>req_url = u, req_method = ''POST'',
      req_headers = [(''Content-Type'', ''application/json''), (''api_token'', tok)],
      req_body = b\<rparr>"

text \<open>\<open>if (!apiToken) { return mock }\<close>: the token is missing when it is
  \<open>undefined\<close> or empty.\<close>

definition with_token :: "string option \<Rightarrow> 'a \<Rightarrow> (string \<Rightarrow> 'a) \<Rightarrow> 'a" where
  "with_token apiToken no_token has_token =
     (case apiToken of None \<Rightarrow> no_token
      | Some tok \<Rightarrow> if tok = [] then no_token else has_token tok)"

text \<open>The response object the edit functions return without a token.\<close>

definition mock_edit :: "string \<Rightarrow> GenerateResponse" where
  "mock_edit image_in = \<lparr>imageUrl = JStr image_in, seed = JUndefined, structuredPrompt = JUndefined\<rparr>"

text \<open>The success path shared by the edit functions:
  \<open>imageUrl: data.result?.image_url || data.result_url\<close>, and
  \<open>seed: data.result?.seed\<close> where the function reports one.\<close>

definition edit_result :: "http_response \<Rightarrow> bool \<Rightarrow> thrown + GenerateResponse" where
  "edit_result response with_seed =
     (case resp_json response of
        Inl m \<Rightarrow> Inl (Error m)
      | Inr data \<Rightarrow>
          (case get_prop data ''result'' of
             Inl err \<Rightarrow> Inl err
           | Inr result \<Rightarrow>
               (let image_url = opt_prop result ''image_url'' in
                case (if truthy image_url then Inr image_url else get_prop data ''result_url'') of
                  Inl err \<Rightarrow> Inl err
                | Inr u \<Rightarrow>
                    Inr \<lparr>imageUrl = u,
                         seed = (if with_seed then opt_prop result ''seed'' else JUndefined),
                         structuredPrompt = JUndefined\<rparr>)))"

definition status_error :: "string \<Rightarrow> http_response \<Rightarrow> thrown" where
  "status_error what response =
     Error (what @ '' failed: '' @ show_nat (resp_status response) @ '' - '' @ resp_text response)"

definition removeBackground :: "env \<Rightarrow> string \<Rightarrow> string option \<Rightarrow> client_result" where
  "removeBackground e image_in apiToken =
     with_token apiToken ([], Inr (mock_edit image_in))
       (\<lambda>tok.
          let rawBase64 = stripDataUrl image_in;
              request = post_request (BRIA_EDIT_BASE @ ''/remove_background'') tok
                          [(''image'', rawBase64), (''sync'', JBool True)]
          in ([request],
              case fetch e request of
                Inl err \<Rightarrow> Inl err
              | Inr response \<Rightarrow>
                  if \<not> ok response then Inl (status_error ''Background removal'' response)
                  else edit_result response False))"

definition blurBackground :: "env \<Rightarrow> string \<Rightarrow> real option \<Rightarrow> string option \<Rightarrow> client_result" where
  "blurBackground e image_in intensity_arg apiToken =
     (let intensity = (case intensity_arg of None \<Rightarrow> 50 | Some i \<Rightarrow> i) in
      with_token apiToken ([], Inr (mock_edit image_in))
       (\<lambda>tok.
          let rawBase64 = stripDataUrl image_in;
              request = post_request (BRIA_EDIT_BASE @ ''/blur_background'') tok
                          [(''image'', rawBase64),
                           (''scale'', JNum (of_int (min 5 (max 1 (js_round (intensity / 20)))))),
                           (''sync'', JBool True)]
          in ([request],
              case fetch e request of
                Inl err \<Rightarrow> Inl err
              | Inr response \<Rightarrow>
                  if \<not> ok response then Inl (status_error ''Background blur'' response)
                  else edit_result response False)))"

definition replaceBackground :: "env \<Rightarrow> string \<Rightarrow> string \<Rightarrow> string option \<Rightarrow> client_result" where
  "replaceBackground e image_in prompt apiToken =
     with_token apiToken ([], Inr (mock_edit image_in))
       (\<lambda>tok.
          let rawBase64 = stripDataUrl image_in;
              request = post_request (BRIA_EDIT_BASE @ ''/replace_background'') tok
                          [(''image'', rawBase64), (''prompt'', JStr prompt),
                           (''mode'', JStr ''high_control''), (''sync'', JBool True)]
          in ([request],
              case fetch e request of
                Inl err \<Rightarrow> Inl err
              | Inr response \<Rightarrow>
                  if \<not> ok response then Inl (status_error ''Background replace'' response)
                  else edit_result response False))"

definition expand_aspect_ratio :: "string \<Rightarrow> string" where
  "expand_aspect_ratio direction =
     (if direction = ''left'' \<or> direction = ''right'' then ''3:2''
      else if direction = ''up'' \<or> direction = ''down'' then ''2:3''
      else ''4:3'')"

definition expandImage ::
  "env \<Rightarrow> string \<Rightarrow> string option \<Rightarrow> real option \<Rightarrow> string option \<Rightarrow> string option \<Rightarrow> client_result" where
  "expandImage e image_in direction_arg amount_arg prompt apiToken =
     (let direction = (case direction_arg of None \<Rightarrow> ''all'' | Some d \<Rightarrow> d) in
      with_token apiToken ([], Inr (mock_edit image_in))
       (\<lambda>tok.
          let rawBase64 = stripDataUrl image_in;
              aspectRatio = expand_aspect_ratio direction;
              requestBody =
                [(''image'', rawBase64), (''aspect_ratio'', JStr aspectRatio), (''sync'', JBool True)]
                @ (case prompt of
                     None \<Rightarrow> []
                   | Some p \<Rightarrow> if p \<noteq> [] \<and> trim p \<noteq> [] then [(''prompt'', JStr p)] else []);
              request = post_request (BRIA_EDIT_BASE @ ''/expand'') tok requestBody
          in ([request],
              case fetch e request of
                Inl err \<Rightarrow> Inl err
              | Inr response \<Rightarrow>
                  if \<not> ok response then
                    (if str_includes (resp_text response) ''canvas_size is too big''
                     then Inl (Error ''Image is too large to expand. Please use a smaller image (max ~5000x5000 pixels).'')
                     else Inl (status_error ''Image expansion'' response))
                  else edit_result response True)))"

definition upscaleImage :: "env \<Rightarrow> string \<Rightarrow> real option \<Rightarrow> string option \<Rightarrow> client_result" where
  "upscaleImage e image_in factor_arg apiToken =
     (let factor = (case factor_arg of None \<Rightarrow> 2 | Some f \<Rightarrow> f) in
      with_token apiToken ([], Inr (mock_edit image_in))
       (\<lambda>tok.
          let rawBase64 = stripDataUrl image_in;
              request = post_request (BRIA_EDIT_BASE @ ''/increase_resolution'') tok
                          [(''image'', rawBase64), (''desired_increase'', JNum factor),
                           (''sync'', JBool True)]
          in ([request],
              case fetch e request of
                Inl err \<Rightarrow> Inl err
              | Inr response \<Rightarrow>
                  if \<not> ok response then Inl (status_error ''Image upscale'' response)
                  else edit_result response False)))"

definition enhanceImage :: "env \<Rightarrow> string \<Rightarrow> string option \<Rightarrow> string option \<Rightarrow> client_result" where
  "enhanceImage e image_in resolution_arg apiToken =
     (let resolution = (case resolution_arg of None \<Rightarrow> ''2MP'' | Some r \<Rightarrow> r) in
      with_token apiToken ([], Inr (mock_edit image_in))
       (\<lambda>tok.
          let rawBase64 = stripDataUrl image_in;
              request = post_request (BRIA_EDIT_BASE @ ''/enhance'') tok
                          [(''image'', rawBase64), (''resolution'', JStr resolution),
                           (''steps_num'', JNum 20), (''sync'', JBool True)]
          in ([request],
              case fetch e request of
                Inl err \<Rightarrow> Inl err
              | Inr response \<Rightarrow>
                  if \<not> ok response then Inl (status_error ''Image enhance'' response)
                  else edit_result response True)))"

definition eraseElements :: "env \<Rightarrow> string \<Rightarrow> string \<Rightarrow> string option \<Rightarrow> client_result" where
  "eraseElements e image_in mask_in apiToken =
     with_token apiToken ([], Inr (mock_edit image_in))
       (\<lambda>tok.
          let rawBase64 = stripDataUrl image_in;
              rawMask = stripDataUrl mask_in;
              request = post_request (BRIA_EDIT_BASE @ ''/erase'') tok
                          [(''image'', rawBase64), (''mask'', rawMask), (''sync'', JBool True)]
          in ([request],
              case fetch e request of
                Inl err \<Rightarrow> Inl err
              | Inr response \<Rightarrow>
                  if \<not> ok response then Inl (status_error ''Erase elements'' response)
                  else edit_result response False))"

subsection \<open>Structured prompts and the mock response\<close>

definition describeCameraAngle :: "camera_params \<Rightarrow> string" where
  "describeCameraAngle cam =
     (let parts =
            (if \<bar>pitch cam\<bar> > 10 then [if pitch cam > 0 then ''high angle'' else ''low angle''] else [])
          @ (if \<bar>yaw cam\<bar> > 10 then [if yaw cam > 0 then ''from the right'' else ''from the left''] else [])
          @ (if \<bar>roll cam\<bar> > 5 then [''dutch angle''] else [])
      in if length parts > 0 then join '', '' parts else ''straight on'')"

definition fovToFocalLength :: "real \<Rightarrow> string" where
  "fovToFocalLength f =
     (if f < 20 then ''135mm telephoto''
      else if f < 35 then ''85mm portrait''
      else if f < 50 then ''50mm standard''
      else if f < 70 then ''35mm wide''
      else ''24mm ultra-wide'')"

text \<open>The lighting table of \<open>mapLightingType\<close> and \<open>buildRichPrompt\<close>.\<close>

definition lighting_descriptions :: "(string \<times> string) list" where
  "lighting_descriptions =
     [(''studio_soft'', ''soft studio lighting with diffused shadows''),
      (''natural_daylight'', ''natural daylight, golden hour warmth''),
      (''dramatic_side'', ''dramatic side lighting with strong contrast''),
      (''backlit'', ''backlit with rim lighting''),
      (''overcast'', ''soft overcast ambient lighting''),
      (''neon'', ''colorful neon lighting''),
      (''candlelight'', ''warm candlelight ambiance'')]"

text \<open>\<open>mapping[lighting] || lighting.replace('_', ' ')\<close>.\<close>

definition mapLightingType :: "string \<Rightarrow> json" where
  "mapLightingType l =
     (let v = literal_lookup lighting_descriptions l
      in if truthy v then v else JStr (replace_first (CHR ''_'') (CHR '' '') l))"

definition paramsToStructuredPrompt :: "FIBOParams \<Rightarrow> string option \<Rightarrow> json" where
  "paramsToStructuredPrompt params subjectDescription =
     (let cameraAngle = describeCameraAngle (camera params);
          focalLength = fovToFocalLength (fov (camera params))
      in JObj
        [(''short_description'',
            JStr (case subjectDescription of
                    None \<Rightarrow> ''A professionally composed image''
                  | Some d \<Rightarrow> if d \<noteq> [] then d else ''A professionally composed image'')),
         (''lighting'', JObj
            [(''type'', mapLightingType (lighting params)),
             (''direction'', JStr ''front''),
             (''shadows'', JStr (if str_includes (lighting params) ''dramatic'' then ''strong'' else ''soft''))]),
         (''aesthetics'', JObj
            [(''composition'', JStr (replace_first (CHR ''_'') (CHR '' '') (composition params))),
             (''color_scheme'',
                JStr (case color_palette params of
                        None \<Rightarrow> ''natural''
                      | Some c \<Rightarrow> if c \<noteq> [] then c else ''natural'')),
             (''mood_atmosphere'',
                JStr (if realism_level params = ''stylized'' then ''artistic'' else ''realistic''))]),
         (''photographic_characteristics'', JObj
            [(''depth_of_field'', JStr (if fov (camera params) < 30 then ''shallow'' else ''medium'')),
             (''focus'', JStr ''sharp on subject''),
             (''camera_angle'', JStr cameraAngle),
             (''lens_focal_length'', JStr focalLength)]),
         (''style_medium'',
            JStr (if realism_level params = ''high'' then ''photograph'' else ''digital art''))])"

text \<open>\<open>Math.floor(Math.random() * 1000000)\<close>, with \<open>Math.random()\<close> in \<open>[0, 1)\<close>.\<close>

definition mock_seed :: "env \<Rightarrow> int" where
  "mock_seed e = \<lfloor>random e * 1000000\<rfloor>"

definition mockGenerateResponse :: "env \<Rightarrow> FIBOParams \<Rightarrow> GenerateResponse" where
  "mockGenerateResponse e params =
     (let s = mock_seed e;
          placeholderUrl = ''https://picsum.photos/seed/'' @ show_nat (nat s) @ ''/1024/1024''
      in \<lparr>imageUrl = JStr placeholderUrl,
          seed = JNum (of_int s),
          structuredPrompt =
            JStr (json_stringify (number_to_string e) (paramsToStructuredPrompt params None))\<rparr>)"

subsection \<open>Generation\<close>

definition rich_composition_descriptions :: "(string \<times> string) list" where
  "rich_composition_descriptions =
     [(''rule_of_thirds'', ''composed using rule of thirds''),
      (''centered'', ''centered composition''),
      (''golden_ratio'', ''golden ratio composition''),
      (''symmetrical'', ''symmetrical composition''),
      (''leading_lines'', ''leading lines composition'')]"

text \<open>\<open>if (s) parts.push(f(s))\<close> for an optional string.\<close>

definition push_if :: "string option \<Rightarrow> (string \<Rightarrow> string) \<Rightarrow> string list" where
  "push_if s f = (case s of None \<Rightarrow> [] | Some t \<Rightarrow> if t \<noteq> [] then [f t] else [])"

text \<open>\<open>if (k && table[k]) parts.push(table[k])\<close>; the element is given as the
  string that \<open>join\<close> makes of it.\<close>

definition push_lookup :: "(real \<Rightarrow> string) \<Rightarrow> (string \<times> string) list \<Rightarrow> string \<Rightarrow> string list" where
  "push_lookup nts table k =
     (if k \<noteq> [] \<and> truthy (literal_lookup table k)
      then [js_to_string nts (literal_lookup table k)]
      else [])"

definition buildRichPrompt :: "(real \<Rightarrow> string) \<Rightarrow> FIBOParams \<Rightarrow> string option \<Rightarrow> string" where
  "buildRichPrompt nts params userPrompt =
     (let parts =
            push_if userPrompt (\<lambda>p. p)
          @ push_if (subject_description params) (\<lambda>p. p)
          @ push_lookup nts lighting_descriptions (lighting params)
          @ push_lookup nts rich_composition_descriptions (composition params)
          @ push_if (color_palette params) (\<lambda>c. c @ '' color palette'')
          @ (if realism_level params = ''high'' then [''photorealistic, highly detailed'']
             else if realism_level params = ''stylized'' then [''artistic, stylized'']
             else []);
          joined = join ''. '' parts
      in if joined \<noteq> [] then joined else ''A high quality image'')"

text \<open>The message of the error thrown on a non-OK response by the two generation
  calls: \<open>errorData.error?.message || errorData.message\<close> when the body parses
  and one of them is truthy, and \<open>API error: <status>\<close> otherwise (also when reading
  the parsed body throws, which the inner \<open>try\<close> swallows).\<close>

definition api_error_message :: "env \<Rightarrow> http_response \<Rightarrow> string" where
  "api_error_message e response =
     (let errorMessage = ''API error: '' @ show_nat (resp_status response) in
      case resp_json response of
        Inl m \<Rightarrow> errorMessage
      | Inr errorData \<Rightarrow>
          (case get_prop errorData ''error'' of
             Inl err \<Rightarrow> errorMessage
           | Inr er \<Rightarrow>
               (let m1 = opt_prop er ''message'' in
                if truthy m1 then js_to_string (number_to_string e) m1
                else (case get_prop errorData ''message'' of
                        Inl err \<Rightarrow> errorMessage
                      | Inr m2 \<Rightarrow>
                          if truthy m2 then js_to_string (number_to_string e) m2
                          else errorMessage))))"

definition generateWithGenFill :: "env \<Rightarrow> string \<Rightarrow> string \<Rightarrow> string \<Rightarrow> string \<Rightarrow> client_result" where
  "generateWithGenFill e image_in mask_in prompt apiToken =
     (let rawImageBase64 = stripDataUrl image_in;
          rawMaskBase64 = stripDataUrl mask_in;
          requestBody =
            [(''image'', rawImageBase64), (''mask'', rawMaskBase64), (''prompt'', JStr prompt),
             (''sync'', JBool True), (''version'', JNum 2), (''mask_type'', JStr ''manual'')];
          request = post_request (BRIA_EDIT_BASE @ ''/gen_fill'') apiToken requestBody
      in ([request],
          case fetch e request of
            Inl err \<Rightarrow> Inl err
          | Inr response \<Rightarrow>
              if \<not> ok response then Inl (Error (api_error_message e response))
              else
                (case resp_json response of
                   Inl m \<Rightarrow> Inl (Error m)
                 | Inr data \<Rightarrow>
                     (case get_prop data ''result'' of
                        Inl err \<Rightarrow> Inl err
                      | Inr result \<Rightarrow>
                          (case get_prop result ''image_url'' of
                             Inl err \<Rightarrow> Inl err
                           | Inr u \<Rightarrow>
                               Inr \<lparr>imageUrl = u, seed = JUndefined,
                                    structuredPrompt = JUndefined\<rparr>)))))"

definition generateStandard :: "env \<Rightarrow> string option \<Rightarrow> string \<Rightarrow> string \<Rightarrow> client_result" where
  "generateStandard e image_in prompt apiToken =
     (let requestBody =
            [(''sync'', JBool True), (''aspect_ratio'', JStr ''1:1''), (''prompt'', JStr prompt)]
            @ (case image_in of
                 None \<Rightarrow> []
               | Some i \<Rightarrow> if i \<noteq> [] then [(''images'', JArr [stripDataUrl i])] else []);
          request = post_request (BRIA_API_BASE @ ''/image/generate'') apiToken requestBody
      in ([request],
          case fetch e request of
            Inl err \<Rightarrow> Inl err
          | Inr response \<Rightarrow>
              if \<not> ok response then Inl (Error (api_error_message e response))
              else
                (case resp_json response of
                   Inl m \<Rightarrow> Inl (Error m)
                 | Inr data \<Rightarrow>
                     (case get_prop data ''result'' of
                        Inl err \<Rightarrow> Inl err
                      | Inr result \<Rightarrow>
                          (case get_prop result ''image_url'' of
                             Inl err \<Rightarrow> Inl err
                           | Inr u \<Rightarrow>
                               (case get_prop result ''seed'' of
                                  Inl err \<Rightarrow> Inl err
                                | Inr sd \<Rightarrow>
                                    (case get_prop result ''structured_prompt'' of
                                       Inl err \<Rightarrow> Inl err
                                     | Inr sp \<Rightarrow>
                                         Inr \<lparr>imageUrl = u, seed = sd,
                                              structuredPrompt = sp\<rparr>)))))))"

definition generateImage ::
  "env \<Rightarrow> string \<Rightarrow> string option \<Rightarrow> FIBOParams \<Rightarrow> string option \<Rightarrow> string option \<Rightarrow> client_result" where
  "generateImage e image_in mask_in params prompt apiToken =
     with_token apiToken ([], Inr (mockGenerateResponse e params))
       (\<lambda>tok.
          let textPrompt = buildRichPrompt (number_to_string e) params prompt in
          if image_in \<noteq> [] \<and> truthy_str mask_in
          then generateWithGenFill e image_in (case mask_in of Some m \<Rightarrow> m | None \<Rightarrow> []) textPrompt tok
          else generateStandard e (Some image_in) textPrompt tok)"

section \<open>The generation endpoint (\<open>api/generate/route.ts\<close>)\<close>

record GenerateRequestBody =
  rb_image :: "string option"
  rb_secondImage :: "string option"
  rb_mask :: "string option"
  rb_params :: "FIBOParams option"
  rb_prompt :: "string option"
  rb_operation :: "string option"

text \<open>A \<open>NextResponse.json(body, {status})\<close>.\<close>

record next_response =
  nr_status :: nat
  nr_body :: json

definition route_lighting_descriptions :: "(string \<times> string) list" where
  "route_lighting_descriptions =
     [(''studio_soft'', ''soft studio lighting''),
      (''natural_daylight'', ''natural daylight''),
      (''dramatic_side'', ''dramatic side lighting''),
      (''backlit'', ''backlit with rim lighting''),
      (''overcast'', ''soft overcast lighting''),
      (''neon'', ''colorful neon lighting''),
      (''candlelight'', ''warm candlelight'')]"

definition route_composition_descriptions :: "(string \<times> string) list" where
  "route_composition_descriptions =
     [(''centered'', ''centered composition''),
      (''rule_of_thirds'', ''rule of thirds composition''),
      (''golden_ratio'', ''golden ratio composition''),
      (''symmetrical'', ''symmetrical composition''),
      (''dynamic'', ''dynamic composition'')]"

definition buildPromptFromParams :: "(real \<Rightarrow> string) \<Rightarrow> FIBOParams \<Rightarrow> string" where
  "buildPromptFromParams nts params =
     (let cam = camera params;
          parts =
            push_if (subject_description params) (\<lambda>p. p)
          @ push_lookup nts route_lighting_descriptions (lighting params)
          @ push_if (color_palette params) (\<lambda>c. c @ '' color palette'')
          @ (if \<bar>yaw cam\<bar> > 15
             then [''camera rotated '' @ (if yaw cam > 0 then ''right'' else ''left'')] else [])
          @ (if \<bar>pitch cam\<bar> > 15
             then [(if pitch cam > 0 then ''high'' else ''low'') @ '' angle shot''] else [])
          @ (if fov cam < 30 then [''telephoto lens, shallow depth of field'']
             else if fov cam > 60 then [''wide angle lens'']
             else [])
          @ push_lookup nts route_composition_descriptions (composition params)
          @ (if realism_level params = ''high'' then [''photorealistic, highly detailed'']
             else if realism_level params = ''stylized'' then [''stylized, artistic'']
             else [])
          @ (if output_format params = ''hdr_16bit'' then [''HDR, high dynamic range''] else []);
          joined = join '', '' parts
      in if joined \<noteq> [] then joined else ''A professional photograph'')"

text \<open>\<open>a || d\<close> for an optional string and for an optional number.\<close>

definition js_or_str :: "string option \<Rightarrow> string \<Rightarrow> string" where
  "js_or_str a d = (case a of None \<Rightarrow> d | Some s \<Rightarrow> if s \<noteq> [] then s else d)"

definition js_or_num :: "real option \<Rightarrow> real \<Rightarrow> real" where
  "js_or_num a d = (case a of None \<Rightarrow> d | Some x \<Rightarrow> if x \<noteq> 0 then x else d)"

definition erase_needs_mask :: next_response where
  "erase_needs_mask =
     \<lparr>nr_status = 400,
      nr_body = JObj [(''error'', JStr ''Please draw on the element you want to erase first!''),
                      (''needsMask'', JBool True)]\<rparr>"

definition inpaint_needs_mask :: next_response where
  "inpaint_needs_mask =
     \<lparr>nr_status = 400,
      nr_body = JObj [(''error'', JStr ''Please draw on the area you want to edit first! Use the brush tool to mark the region, then try again.''),
                      (''needsMask'', JBool True)]\<rparr>"

text \<open>The outcome of the \<open>switch\<close>: the requests sent, and either a thrown value,
  an early response (\<open>Inr (Inl r)\<close>) or the result of the client call
  (\<open>Inr (Inr g)\<close>).\<close>

type_synonym switch_result = "http_request list \<times> (thrown + (next_response + GenerateResponse))"

definition await :: "client_result \<Rightarrow> switch_result" where
  "await c = (fst c, case snd c of Inl err \<Rightarrow> Inl err | Inr g \<Rightarrow> Inr (Inr g))"

definition default_generation ::
  "env \<Rightarrow> string \<Rightarrow> string option \<Rightarrow> FIBOParams \<Rightarrow> string option \<Rightarrow> string option \<Rightarrow> switch_result" where
  "default_generation e image_in mask_in params prompt operation =
     (let effectivePrompt =
            (if operation = Some ''inpaint_remove''
             then js_or_str prompt ''empty, background continues naturally''
             else if js_or_str prompt [] = [] then buildPromptFromParams (number_to_string e) params
             else js_or_str prompt [])
      in await (generateImage e image_in mask_in params (Some effectivePrompt) (BRIA_API_TOKEN e)))"

definition route_switch ::
  "env \<Rightarrow> string \<Rightarrow> string option \<Rightarrow> FIBOParams \<Rightarrow> string option \<Rightarrow> string option \<Rightarrow> switch_result" where
  "route_switch e image_in mask_in params prompt operation =
     (let apiToken = BRIA_API_TOKEN e in
      if operation = Some ''background_remove'' then
        await (removeBackground e image_in apiToken)
      else if operation = Some ''background_blur'' then
        (let blurIntensity = js_or_num (blur_intensity params) 50
         in await (blurBackground e image_in (Some blurIntensity) apiToken))
      else if operation = Some ''background_replace'' then
        (let bgPrompt = js_or_str (new_background params) (js_or_str prompt ''professional studio background'')
         in await (replaceBackground e image_in bgPrompt apiToken))
      else if operation = Some ''image_expand'' then
        (let expandDir = js_or_str (expand_direction params) ''all'';
             expandAmt = js_or_num (expand_amount params) 25
         in await (expandImage e image_in (Some expandDir) (Some expandAmt) prompt apiToken))
      else if operation = Some ''image_upscale'' then
        (let scaleFactor = js_or_num (upscale_factor params) 2
         in await (upscaleImage e image_in (Some scaleFactor) apiToken))
      else if operation = Some ''hdr_enhance'' then
        (let resolution = js_or_str (hdr_resolution params) ''2MP''
         in await (enhanceImage e image_in (Some resolution) apiToken))
      else if operation = Some ''erase_element'' then
        (case mask_in of
           None \<Rightarrow> ([], Inr (Inl erase_needs_mask))
         | Some m \<Rightarrow>
             if m = [] then ([], Inr (Inl erase_needs_mask))
             else await (eraseElements e image_in m apiToken))
      else if operation = Some ''inpaint_remove'' \<or> operation = Some ''inpaint_replace''
              \<or> operation = Some ''inpaint_add'' then
        (if \<not> truthy_str mask_in then ([], Inr (Inl inpaint_needs_mask))
         else default_generation e image_in mask_in params prompt operation)
      else default_generation e image_in mask_in params prompt operation)"

text \<open>The body of a successful response: the fields of the result (a field that
  is \<open>undefined\<close> disappears when the object is serialised).\<close>

definition result_body :: "GenerateResponse \<Rightarrow> json" where
  "result_body g =
     JObj [(''imageUrl'', imageUrl g), (''seed'', seed g), (''structuredPrompt'', structuredPrompt g)]"

definition error_body :: "string \<Rightarrow> json" where
  "error_body m = JObj [(''error'', JStr m)]"

definition catch_response :: "thrown \<Rightarrow> next_response" where
  "catch_response err =
     \<lparr>nr_status = 500,
      nr_body = error_body (case err of Error m \<Rightarrow> m | Thrown_other \<Rightarrow> ''Failed to generate image'')\<rparr>"

text \<open>The handler. Its argument is the outcome of \<open>await request.json()\<close>: the
  parsed body, or the value thrown while reading it. It returns the requests made to
  the external API, in order, and the response.\<close>

definition POST :: "env \<Rightarrow> thrown + GenerateRequestBody \<Rightarrow> http_request list \<times> next_response" where
  "POST e request_json =
     (case request_json of
        Inl err \<Rightarrow> ([], catch_response err)
      | Inr body \<Rightarrow>
          if \<not> truthy_str (rb_image body) then
            ([], \<lparr>nr_status = 400, nr_body = error_body ''Image is required''\<rparr>)
          else
            (case rb_params body of
               None \<Rightarrow> ([], \<lparr>nr_status = 400, nr_body = error_body ''FIBO parameters are required''\<rparr>)
             | Some params \<Rightarrow>
                 (let image_in = (case rb_image body of Some i \<Rightarrow> i | None \<Rightarrow> []);
                      sw = route_switch e image_in (rb_mask body) params (rb_prompt body)
                             (rb_operation body)
                  in case snd sw of
                       Inl err \<Rightarrow> (fst sw, catch_response err)
                     | Inr (Inl early) \<Rightarrow> (fst sw, early)
                     | Inr (Inr result) \<Rightarrow> (fst sw, \<lparr>nr_status = 200, nr_body = result_body result\<rparr>))))"

section \<open>The Quick Actions panel (\<open>components/QuickActionsPanel.tsx\<close>)\<close>

text \<open>The identifiers of the type \<open>QuickAction\<close>, and the table the panel renders:
  one button per entry, whose click calls \<open>onAction(action.id)\<close> unless the panel is
  disabled or processing.\<close>

definition QuickAction_values :: "string list" where
  "QuickAction_values =
     [''background_remove'', ''background_blur'', ''background_replace'', ''image_expand'',
      ''image_upscale'', ''erase_element'', ''hdr_enhance'']"

record quick_action =
  qa_id :: string
  qa_label :: string
  qa_description :: string
  qa_icon :: string
  qa_color :: string

definition QUICK_ACTIONS :: "quick_action list" where
  "QUICK_ACTIONS =
     [\<lparr>qa_id = ''background_remove'', qa_label = ''Remove BG'',
       qa_description = ''Remove background (transparent)'', qa_icon = ''ImageOff'',
       qa_color = ''from-red-500 to-pink-500''\<rparr>,
      \<lparr>qa_id = ''background_blur'', qa_label = ''Blur BG'',
       qa_description = ''Add depth-of-field blur'', qa_icon = ''Focus'',
       qa_color = ''from-blue-500 to-cyan-500''\<rparr>,
      \<lparr>qa_id = ''background_replace'', qa_label = ''Replace BG'',
       qa_description = ''Generate new background'', qa_icon = ''Layers'',
       qa_color = ''from-purple-500 to-indigo-500''\<rparr>,
      \<lparr>qa_id = ''image_expand'', qa_label = ''Expand'',
       qa_description = ''Extend image boundaries'', qa_icon = ''Maximize2'',
       qa_color = ''from-emerald-500 to-teal-500''\<rparr>,
      \<lparr>qa_id = ''image_upscale'', qa_label = ''Upscale 2x'',
       qa_description = ''Increase resolution'', qa_icon = ''ZoomIn'',
       qa_color = ''from-orange-500 to-amber-500''\<rparr>,
      \<lparr>qa_id = ''erase_element'', qa_label = ''Erase'',
       qa_description = ''Remove & fill marked area'', qa_icon = ''Eraser'',
       qa_color = ''from-rose-500 to-red-500''\<rparr>]"

text \<open>The action a click on the \<open>k\<close>-th button dispatches to \<open>onAction\<close>, if any.\<close>

definition click_button :: "bool \<Rightarrow> bool \<Rightarrow> nat \<Rightarrow> string option" where
  "click_button disabled isProcessing k =
     (if disabled \<or> isProcessing then None
      else if k < length QUICK_ACTIONS then Some (qa_id (QUICK_ACTIONS ! k))
      else None)"

text \<open>The identifiers some button of the enabled panel dispatches.\<close>

definition offered_actions :: "string list" where
  "offered_actions = map qa_id QUICK_ACTIONS"

section \<open>The canvas editor: mask history\<close>

text \<open>
  An \<open>ImageData\<close>: width, height and the RGBA bytes, four per pixel, row by row.
  The mask canvas is modelled by its content, \<open>None\<close> when the canvas reference is
  \<open>null\<close>.
\<close>

type_synonym byte = "8 word"

record image_data =
  img_width :: nat
  img_height :: nat
  img_data :: "byte list"

definition well_formed :: "image_data \<Rightarrow> bool" where
  "well_formed d = (length (img_data d) = 4 * (img_width d * img_height d))"

text \<open>\<open>ctx.getImageData(0, 0, canvas.width, canvas.height)\<close> copies the whole
  canvas; \<open>ctx.putImageData(d, 0, 0)\<close> overwrites the pixels of the canvas that
  \<open>d\<close> covers when placed at the origin; \<open>ctx.clearRect(0, 0, width, height)\<close>
  makes every pixel transparent black.\<close>

definition getImageData :: "image_data \<Rightarrow> image_data" where
  "getImageData canvas = canvas"

definition putImageData :: "image_data \<Rightarrow> image_data \<Rightarrow> image_data" where
  "putImageData canvas d =
     canvas\<lparr>img_data :=
       map (\<lambda>k. let p = k div 4; x = p mod img_width canvas; y = p div img_width canvas
                in if x < img_width d \<and> y < img_height d
                   then img_data d ! (4 * (y * img_width d + x) + k mod 4)
                   else img_data canvas ! k)
           [0..<length (img_data canvas)]\<rparr>"

definition clearRect :: "image_data \<Rightarrow> image_data" where
  "clearRect canvas = canvas\<lparr>img_data := replicate (length (img_data canvas)) 0\<rparr>"

text \<open>\<open>xs.slice(0, e)\<close>: a negative end counts from the end of the array.\<close>

definition slice_to :: "'a list \<Rightarrow> int \<Rightarrow> 'a list" where
  "slice_to xs e =
     (if e < 0 then take (nat (max 0 (int (length xs) + e))) xs else take (nat e) xs)"

text \<open>\<open>xs[i]\<close> for an integer index: \<open>undefined\<close> out of range.\<close>

definition index_opt :: "'a list \<Rightarrow> int \<Rightarrow> 'a option" where
  "index_opt xs i = (if 0 \<le> i \<and> i < int (length xs) then Some (xs ! nat i) else None)"

text \<open>The part of the component state that the mask tools touch, the content of
  the mask canvas, and the arguments of the calls to \<open>onMaskChange\<close> so far (oldest
  first; \<open>None\<close> is \<open>null\<close>, and an exported image stands for its PNG data URL).\<close>

record editor =
  history :: "image_data list"
  historyIndex :: int
  hasMask :: bool
  isDrawing :: bool
  maskCanvas :: "image_data option"
  maskChanges :: "image_data option list"

definition saveToHistory :: "editor \<Rightarrow> editor" where
  "saveToHistory s =
     (case maskCanvas s of
        None \<Rightarrow> s
      | Some canvas \<Rightarrow>
          (let imageData = getImageData canvas;
               pushed = slice_to (history s) (historyIndex s + 1) @ [imageData];
               newHistory = (if length pushed > 50 then tl pushed else pushed)
           in s\<lparr>history := newHistory, historyIndex := int (length newHistory) - 1\<rparr>))"

subsection \<open>Exporting the mask\<close>

text \<open>The loop \<open>for (i = 0; i < maskData.data.length; i += 4)\<close>. A read beyond the
  array is \<open>undefined\<close>, which is not greater than 10; a write beyond it is
  ignored.\<close>

function export_loop :: "nat \<Rightarrow> byte list \<Rightarrow> byte list \<Rightarrow> byte list" where
  "export_loop i maskData exportData =
     (if i < length maskData then
        export_loop (i + 4) maskData
          (if i + 3 < length maskData \<and> maskData ! (i + 3) > 10
           then exportData[i := 255, i + 1 := 255, i + 2 := 255, i + 3 := 255]
           else exportData)
      else exportData)"
  by pat_completeness auto
termination
  by (relation "measure (\<lambda>(i, maskData, exportData). length maskData - i)") auto

declare export_loop.simps [simp del]

text \<open>The export canvas after \<open>fillRect\<close> with black: every pixel is opaque
  black.\<close>

definition black_pixels :: "nat \<Rightarrow> byte list" where
  "black_pixels n = concat (replicate n [0, 0, 0, 255])"

definition binary_mask :: "image_data \<Rightarrow> image_data" where
  "binary_mask canvas =
     \<lparr>img_width = img_width canvas, img_height = img_height canvas,
      img_data = export_loop 0 (img_data (getImageData canvas))
                   (black_pixels (img_width canvas * img_height canvas))\<rparr>"

text \<open>The argument \<open>exportMask\<close> passes to \<open>onMaskChange\<close>, from the canvas and the
  \<open>hasMask\<close> flag its closure holds.\<close>

definition exportMask_value :: "image_data option \<Rightarrow> bool \<Rightarrow> image_data option" where
  "exportMask_value canvas has =
     (case canvas of
        None \<Rightarrow> None
      | Some c \<Rightarrow> if \<not> has then None else Some (binary_mask c))"

definition exportMask :: "bool \<Rightarrow> editor \<Rightarrow> editor" where
  "exportMask has s = s\<lparr>maskChanges := maskChanges s @ [exportMask_value (maskCanvas s) has]\<rparr>"

subsection \<open>Drawing, undo and redo\<close>

text \<open>A stroke paints on the mask canvas; what it paints depends on the brush and
  the pointer path, so the painted content \<open>painted\<close> is a parameter.\<close>

definition drawStroke :: "byte list \<Rightarrow> editor \<Rightarrow> editor" where
  "drawStroke painted s =
     (case maskCanvas s of
        None \<Rightarrow> s
      | Some canvas \<Rightarrow> s\<lparr>maskCanvas := Some (canvas\<lparr>img_data := painted\<rparr>), hasMask := True\<rparr>)"

text \<open>The pointer handlers with a drawing tool (brush or eraser) on an enabled
  editor; panning and zooming do not touch the mask state.\<close>

definition handlePointerDown :: "byte list \<Rightarrow> editor \<Rightarrow> editor" where
  "handlePointerDown painted s = drawStroke painted (s\<lparr>isDrawing := True\<rparr>)"

definition handlePointerMove :: "byte list \<Rightarrow> editor \<Rightarrow> editor" where
  "handlePointerMove painted s = (if isDrawing s then drawStroke painted s else s)"

definition handlePointerUp :: "editor \<Rightarrow> editor" where
  "handlePointerUp s =
     (if isDrawing s then exportMask (hasMask s) (saveToHistory s) else s)\<lparr>isDrawing := False\<rparr>"

text \<open>\<open>clearMask\<close>, \<open>undo\<close> and \<open>redo\<close>. The \<open>exportMask\<close> that \<open>undo\<close> and
  \<open>redo\<close> call at their end belongs to the render in which the handler was
  created: it reads the canvas as just repainted, and the \<open>hasMask\<close> flag as it
  was before the handler ran. Reading \<open>history[newIndex]\<close> out of range gives
  \<open>undefined\<close>, on which \<open>putImageData\<close> throws before any state is set.\<close>

definition clearMask :: "editor \<Rightarrow> editor" where
  "clearMask s =
     (case maskCanvas s of
        None \<Rightarrow> s
      | Some canvas \<Rightarrow>
          (let cleared = s\<lparr>maskCanvas := Some (clearRect canvas)\<rparr>;
               saved = saveToHistory cleared
           in saved\<lparr>hasMask := False, maskChanges := maskChanges saved @ [None]\<rparr>))"

definition undo :: "editor \<Rightarrow> editor" where
  "undo s =
     (if historyIndex s \<le> 0 then s
      else
        (case maskCanvas s of
           None \<Rightarrow> s
         | Some canvas \<Rightarrow>
             (let newIndex = historyIndex s - 1 in
              if newIndex < 0 then
                exportMask (hasMask s)
                  (s\<lparr>maskCanvas := Some (clearRect canvas), hasMask := False,
                     historyIndex := newIndex\<rparr>)
              else
                (case index_opt (history s) newIndex of
                   None \<Rightarrow> s
                 | Some d \<Rightarrow>
                     exportMask (hasMask s)
                       (s\<lparr>maskCanvas := Some (putImageData canvas d), hasMask := True,
                          historyIndex := newIndex\<rparr>)))))"

definition redo :: "editor \<Rightarrow> editor" where
  "redo s =
     (if historyIndex s \<ge> int (length (history s)) - 1 then s
      else
        (case maskCanvas s of
           None \<Rightarrow> s
         | Some canvas \<Rightarrow>
             (let newIndex = historyIndex s + 1 in
              case index_opt (history s) newIndex of
                None \<Rightarrow> s
              | Some d \<Rightarrow>
                  exportMask (hasMask s)
                    (s\<lparr>maskCanvas := Some (putImageData canvas d), historyIndex := newIndex,
                       hasMask := True\<rparr>))))"

text \<open>The effect that runs when an image has loaded: the mask canvas takes the
  size of the image and is cleared, and the history is emptied.\<close>

definition blank_canvas :: "nat \<Rightarrow> nat \<Rightarrow> image_data" where
  "blank_canvas w h = \<lparr>img_width = w, img_height = h, img_data = replicate (4 * (w * h)) 0\<rparr>"

definition imageLoaded :: "nat \<Rightarrow> nat \<Rightarrow> editor \<Rightarrow> editor" where
  "imageLoaded w h s =
     (case maskCanvas s of
        None \<Rightarrow> s
      | Some canvas \<Rightarrow>
          s\<lparr>maskCanvas := Some (blank_canvas w h), hasMask := False, history := [],
            historyIndex := - 1\<rparr>)"

text \<open>The editor when its canvas is first mounted, and the states it reaches from
  there by image loads, strokes, clearing, undo and redo.\<close>

definition mounted_editor :: editor where
  "mounted_editor =
     \<lparr>history = [], historyIndex = - 1, hasMask = False, isDrawing = False,
      maskCanvas = Some (blank_canvas 300 150), maskChanges = []\<rparr>"

inductive reachable :: "editor \<Rightarrow> bool" where
  mounted: "reachable mounted_editor"
| loaded: "reachable s \<Longrightarrow> reachable (imageLoaded w h s)"
| pointer_down:
    "reachable s \<Longrightarrow> maskCanvas s = Some canvas \<Longrightarrow> length painted = length (img_data canvas)
     \<Longrightarrow> reachable (handlePointerDown painted s)"
| pointer_move:
    "reachable s \<Longrightarrow> maskCanvas s = Some canvas \<Longrightarrow> length painted = length (img_data canvas)
     \<Longrightarrow> reachable (handlePointerMove painted s)"
| pointer_up: "reachable s \<Longrightarrow> reachable (handlePointerUp s)"
| cleared: "reachable s \<Longrightarrow> reachable (clearMask s)"
| undone: "reachable s \<Longrightarrow> reachable (undo s)"
| redone: "reachable s \<Longrightarrow> reachable (redo s)"

text \<open>The invariant of the mask state: the history holds at most 50 snapshots,
  the index is \<open>-1\<close> or points into the history, and the canvas and every
  snapshot are well formed and of one size.\<close>

definition same_size :: "image_data \<Rightarrow> image_data \<Rightarrow> bool" where
  "same_size c d = (img_width d = img_width c \<and> img_height d = img_height c)"

definition history_inv :: "editor \<Rightarrow> bool" where
  "history_inv s =
     (length (history s) \<le> 50 \<and> - 1 \<le> historyIndex s
      \<and> historyIndex s < int (length (history s))
      \<and> (\<exists>c. maskCanvas s = Some c \<and> well_formed c
             \<and> (\<forall>d \<in> set (history s). same_size c d \<and> well_formed d)))"

section \<open>The canvas editor: cropping\<close>

subsection \<open>Numbers\<close>

text \<open>
  Coordinates are JavaScript numbers, modelled as reals. Every arithmetic result
  of the code is rounded to a double; the handlers below take this rounding as the
  parameter \<open>rnd\<close>. \<open>double\<close> is the rounding of IEEE 754 binary64 (to nearest,
  ties to even) for numbers of magnitude below \<open>2 ^ 1024\<close>, and the identity is
  arithmetic without rounding error.
\<close>

text \<open>The number of binary digits of \<open>n\<close>, and the exponent \<open>e\<close> with
  \<open>2 ^ e \<le> \<bar>x\<bar> < 2 ^ (e + 1)\<close> of a non-zero \<open>x\<close>.\<close>

fun bits :: "nat \<Rightarrow> nat" where
  "bits n = (if n = 0 then 0 else Suc (bits (n div 2)))"

declare bits.simps [simp del]

definition binade :: "real \<Rightarrow> int" where
  "binade x =
     (if 1 \<le> \<bar>x\<bar> then int (bits (nat \<lfloor>\<bar>x\<bar>\<rfloor>)) - 1
      else - int (bits (nat (\<lceil>1 / \<bar>x\<bar>\<rceil> - 1))))"

definition pow2 :: "int \<Rightarrow> real" where
  "pow2 k = (if 0 \<le> k then 2 ^ nat k else 1 / 2 ^ nat (- k))"

definition round_even :: "real \<Rightarrow> int" where
  "round_even x =
     (let n = \<lfloor>x\<rfloor>; r = x - of_int n
      in if r < 1 / 2 then n else if 1 / 2 < r then n + 1 else if even n then n else n + 1)"

definition double :: "real \<Rightarrow> real" where
  "double x =
     (if x = 0 then 0
      else (let quantum = pow2 (max (binade x) (- 1022) - 52)
            in of_int (round_even (x / quantum)) * quantum))"

subsection \<open>The crop state and its handlers\<close>

text \<open>
  The crop state of the component. The image dimensions \<open>W\<close> and \<open>H\<close> (the state
  \<open>imageDimensions\<close>, 800 by 600 at mount and then the natural size of the loaded
  image) are parameters of the handlers.
\<close>

record rect =
  rect_x :: real
  rect_y :: real
  rect_width :: real
  rect_height :: real

record crop_editor =
  isCropping :: bool
  cropArea :: rect
  isDraggingCrop :: bool
  cropDragStart :: "real \<times> real"
  cropStartArea :: rect
  cropResizeHandle :: "string option"
  hasCropChanges :: bool

definition initializeCrop :: "(real \<Rightarrow> real) \<Rightarrow> nat \<Rightarrow> nat \<Rightarrow> crop_editor \<Rightarrow> crop_editor" where
  "initializeCrop rnd W H s =
     (let margin = rnd (1 / 10);
          inner = rnd (1 - rnd (margin * 2))
      in s\<lparr>isCropping := True, hasCropChanges := False,
           cropArea := \<lparr>rect_x = rnd (real W * margin), rect_y = rnd (real H * margin),
                        rect_width = rnd (real W * inner),
                        rect_height = rnd (real H * inner)\<rparr>\<rparr>)"



text \<open>A mouse-down on the crop box (no handle) or on one of its handles, at
  client position \<open>pos\<close>.\<close>

definition handleCropMouseDown :: "real \<times> real \<Rightarrow> string option \<Rightarrow> crop_editor \<Rightarrow> crop_editor" where
  "handleCropMouseDown pos handle s =
     (if \<not> isCropping s then s
      else
        (let s1 = s\<lparr>cropDragStart := pos, cropStartArea := cropArea s\<rparr> in
         if truthy_str handle then s1\<lparr>cropResizeHandle := handle\<rparr>
         else s1\<lparr>isDraggingCrop := True\<rparr>))"

text \<open>A mouse-move at client position \<open>pos\<close>. \<open>imgRect\<close> is the size of the
  displayed image (\<open>img.getBoundingClientRect()\<close>), \<open>None\<close> when the container or
  the image reference is \<open>null\<close>. When the displayed image has a side of length 0
  the scale is \<open>Infinity\<close> or \<open>NaN\<close>, which are not reals: the result is then
  \<open>None\<close>, and the code may store \<open>NaN\<close> in the crop rectangle.\<close>

definition handleCropMouseMove ::
  "(real \<Rightarrow> real) \<Rightarrow> nat \<Rightarrow> nat \<Rightarrow> (real \<times> real) option \<Rightarrow> real \<times> real \<Rightarrow> crop_editor
     \<Rightarrow> crop_editor option" where
  "handleCropMouseMove rnd W H imgRect pos s =
     (if \<not> isCropping s \<or> (\<not> isDraggingCrop s \<and> \<not> truthy_str (cropResizeHandle s)) then Some s
      else
        (case imgRect of
           None \<Rightarrow> Some s
         | Some (rectWidth, rectHeight) \<Rightarrow>
             if rectWidth = 0 \<or> rectHeight = 0 then None
             else
               (let scaleX = rnd (real W / rectWidth);
                    scaleY = rnd (real H / rectHeight);
                    deltaX = rnd (rnd (fst pos - fst (cropDragStart s)) * scaleX);
                    deltaY = rnd (rnd (snd pos - snd (cropDragStart s)) * scaleY);
                    start = cropStartArea s
                in if isDraggingCrop s then
                     (let newX = max 0 (min (rnd (rect_x start + deltaX))
                                            (rnd (real W - rect_width start)));
                          newY = max 0 (min (rnd (rect_y start + deltaY))
                                            (rnd (real H - rect_height start)))
                      in Some (s\<lparr>cropArea := start\<lparr>rect_x := newX, rect_y := newY\<rparr>,
                                 hasCropChanges := True\<rparr>))
                   else
                     (let h = (case cropResizeHandle s of Some t \<Rightarrow> t | None \<Rightarrow> []);
                          minSize = 50;
                          a1 = (if str_includes h ''e''
                                then (let newWidth = max minSize (rnd (rect_width start + deltaX))
                                      in start\<lparr>rect_width :=
                                                 min newWidth (rnd (real W - rect_x start))\<rparr>)
                                else start);
                          a2 = (if str_includes h ''w''
                                then (let maxDeltaX = rnd (rect_width start - minSize);
                                          clampedDeltaX = max (- rect_x start) (min deltaX maxDeltaX)
                                      in a1\<lparr>rect_x := rnd (rect_x start + clampedDeltaX),
                                            rect_width := rnd (rect_width start - clampedDeltaX)\<rparr>)
                                else a1);
                          a3 = (if str_includes h ''s''
                                then (let newHeight = max minSize (rnd (rect_height start + deltaY))
                                      in a2\<lparr>rect_height :=
                                              min newHeight (rnd (real H - rect_y start))\<rparr>)
                                else a2);
                          a4 = (if str_includes h ''n''
                                then (let maxDeltaY = rnd (rect_height start - minSize);
                                          clampedDeltaY = max (- rect_y start) (min deltaY maxDeltaY)
                                      in a3\<lparr>rect_y := rnd (rect_y start + clampedDeltaY),
                                            rect_height := rnd (rect_height start - clampedDeltaY)\<rparr>)
                                else a3)
                      in Some (s\<lparr>cropArea := a4, hasCropChanges := True\<rparr>)))))"

definition handleCropMouseUp :: "crop_editor \<Rightarrow> crop_editor" where
  "handleCropMouseUp s = s\<lparr>isDraggingCrop := False, cropResizeHandle := None\<rparr>"

text \<open>The crop state at mount.\<close>

definition idle_crop :: crop_editor where
  "idle_crop =
     \<lparr>isCropping = False, cropArea = \<lparr>rect_x = 0, rect_y = 0, rect_width = 0, rect_height = 0\<rparr>,
      isDraggingCrop = False, cropDragStart = (0, 0),
      cropStartArea = \<lparr>rect_x = 0, rect_y = 0, rect_width = 0, rect_height = 0\<rparr>,
      cropResizeHandle = None, hasCropChanges = False\<rparr>"



text \<open>The states of one crop session on an image whose size stays \<open>W\<close> by \<open>H\<close>:
  cropping starts with no drag or resize in progress, and is followed by
  mouse-downs on the crop box or a handle, mouse-moves over a displayed image
  with no side of length 0, and mouse-ups.\<close>

inductive crop_session :: "(real \<Rightarrow> real) \<Rightarrow> nat \<Rightarrow> nat \<Rightarrow> crop_editor \<Rightarrow> bool"
  for rnd W H where
  session_started:
    "\<not> isDraggingCrop s \<Longrightarrow> cropResizeHandle s = None
     \<Longrightarrow> crop_session rnd W H (initializeCrop rnd W H s)"
| session_down: "crop_session rnd W H s \<Longrightarrow> crop_session rnd W H (handleCropMouseDown pos handle s)"
| session_move:
    "crop_session rnd W H s \<Longrightarrow> handleCropMouseMove rnd W H imgRect pos s = Some s'
     \<Longrightarrow> crop_session rnd W H s'"
| session_up: "crop_session rnd W H s \<Longrightarrow> crop_session rnd W H (handleCropMouseUp s)"







definition sample_canvas :: image_data where
  "sample_canvas = \<lparr>img_width = 2, img_height = 1, img_data = [255, 0, 0, 128, 0, 0, 255, 9]\<rparr>"




text \<open>In double arithmetic: the initial crop of an image of 1716 by 1716 shown
  at 1122 by 1122, resized from the east handle to the right edge, and then from
  the west handle by 967 pixels to the right.\<close>

definition crop_east :: crop_editor where
  "crop_east =
     handleCropMouseUp
       (the (handleCropMouseMove double 1716 1716 (Some (1122, 1122)) (5000, 0)
          (handleCropMouseDown (0, 0) (Some ''e'') (initializeCrop double 1716 1716 idle_crop))))"

definition crop_east_west :: crop_editor where
  "crop_east_west =
     the (handleCropMouseMove double 1716 1716 (Some (1122, 1122)) (967, 0)
       (handleCropMouseDown (0, 0) (Some ''w'') crop_east))"

section \<open>Sample inputs\<close>

definition sample_params :: FIBOParams where
  "sample_params =
     \<lparr>lighting = ''studio_soft'', composition = ''centered'', realism_level = ''high'',
      output_format = ''hdr_16bit'', camera = \<lparr>yaw = 0, pitch = 0, roll = 0, fov = 50\<rparr>,
      subject_description = None, color_palette = None, blur_intensity = Some 0,
      new_background = None, expand_direction = None, expand_amount = None,
      upscale_factor = None, hdr_resolution = None\<rparr>"

definition sample_body :: "string \<Rightarrow> string option \<Rightarrow> GenerateRequestBody" where
  "sample_body opn m =
     \<lparr>rb_image = Some ''data:image/png;base64,AAAA'', rb_secondImage = None, rb_mask = m,
      rb_params = Some sample_params, rb_prompt = None, rb_operation = Some opn\<rparr>"

text \<open>An external API that answers every request with status 500, one that rejects
  every request with a value that is not an \<open>Error\<close>, and a deployment without a
  token.\<close>

definition failing_env :: env where
  "failing_env =
     \<lparr>fetch = (\<lambda>req. Inr \<lparr>resp_status = 500, resp_text = ''boom'', resp_json = Inl ''bad''\<rparr>),
      number_to_string = (\<lambda>x. ''0''), random = 1 / 4, BRIA_API_TOKEN = Some ''tok''\<rparr>"

definition rejecting_env :: env where
  "rejecting_env = failing_env\<lparr>fetch := (\<lambda>req. Inl Thrown_other)\<rparr>"

definition tokenless_env :: env where
  "tokenless_env = failing_env\<lparr>BRIA_API_TOKEN := None\<rparr>"

section \<open>Auxiliary notions for the error path\<close>

text \<open>An external API that never answers with an OK status (it may also reject),
  and a call that sent exactly one request and threw: the value \<open>fetch\<close> rejected
  with, or an \<open>Error\<close> when \<open>fetch\<close> returned a response.\<close>

definition always_fails :: "env \<Rightarrow> bool" where
  "always_fails e = (\<forall>req. case fetch e req of Inl t \<Rightarrow> True | Inr r \<Rightarrow> \<not> ok r)"

definition failed_call :: "env \<Rightarrow> http_request list \<times> (thrown + 'a) \<Rightarrow> bool" where
  "failed_call e c =
     (\<exists>req t. c = ([req], Inl t)
        \<and> (case fetch e req of Inl t' \<Rightarrow> t = t' | Inr r \<Rightarrow> \<exists>msg. t = Error msg))"

section \<open>Auxiliary notions for the dispatch\<close>

text \<open>A request that contains an image and params and is not turned away for a
  missing mask.\<close>

definition reaches_client :: "GenerateRequestBody \<Rightarrow> bool" where
  "reaches_client b =
     (truthy_str (rb_image b) \<and> rb_params b \<noteq> None
      \<and> (rb_operation b \<in> {Some ''erase_element'', Some ''inpaint_remove'',
             Some ''inpaint_replace'', Some ''inpaint_add''} \<longrightarrow> truthy_str (rb_mask b)))"

text \<open>The endpoint the claimed case analysis assigns to an operation, given whether
  a mask is present.\<close>

definition claimed_endpoint :: "string option \<Rightarrow> bool \<Rightarrow> string" where
  "claimed_endpoint opn has_mask =
     (if opn = Some ''background_remove'' then ''https://engine.prod.bria-api.com/v2/image/edit/remove_background''
      else if opn = Some ''background_blur'' then ''https://engine.prod.bria-api.com/v2/image/edit/blur_background''
      else if opn = Some ''background_replace'' then ''https://engine.prod.bria-api.com/v2/image/edit/replace_background''
      else if opn = Some ''image_expand'' then ''https://engine.prod.bria-api.com/v2/image/edit/expand''
      else if opn = Some ''image_upscale'' then ''https://engine.prod.bria-api.com/v2/image/edit/increase_resolution''
      else if opn = Some ''hdr_enhance'' then ''https://engine.prod.bria-api.com/v2/image/edit/enhance''
      else if opn = Some ''erase_element'' then ''https://engine.prod.bria-api.com/v2/image/edit/erase''
      else if has_mask then ''https://engine.prod.bria-api.com/v2/image/edit/gen_fill''
      else ''https://engine.prod.bria-api.com/v2/image/generate'')"

text \<open>The shape of a request body is the set of its keys. The table lists, for each
  endpoint, the key lists of the bodies the client builds for it (the expand body
  has a \<open>prompt\<close> only when one is given).\<close>

definition body_keys :: "http_request \<Rightarrow> string list" where
  "body_keys r = map fst (req_body r)"

definition branch_shapes :: "(string \<times> string list) list" where
  "branch_shapes =
     [(''https://engine.prod.bria-api.com/v2/image/edit/remove_background'', [''image'', ''sync'']),
      (''https://engine.prod.bria-api.com/v2/image/edit/blur_background'', [''image'', ''scale'', ''sync'']),
      (''https://engine.prod.bria-api.com/v2/image/edit/replace_background'',
         [''image'', ''prompt'', ''mode'', ''sync'']),
      (''https://engine.prod.bria-api.com/v2/image/edit/expand'', [''image'', ''aspect_ratio'', ''sync'']),
      (''https://engine.prod.bria-api.com/v2/image/edit/expand'',
         [''image'', ''aspect_ratio'', ''sync'', ''prompt'']),
      (''https://engine.prod.bria-api.com/v2/image/edit/increase_resolution'',
         [''image'', ''desired_increase'', ''sync'']),
      (''https://engine.prod.bria-api.com/v2/image/edit/enhance'',
         [''image'', ''resolution'', ''steps_num'', ''sync'']),
      (''https://engine.prod.bria-api.com/v2/image/edit/erase'', [''image'', ''mask'', ''sync'']),
      (''https://engine.prod.bria-api.com/v2/image/edit/gen_fill'',
         [''image'', ''mask'', ''prompt'', ''sync'', ''version'', ''mask_type'']),
      (''https://engine.prod.bria-api.com/v2/image/generate'',
         [''sync'', ''aspect_ratio'', ''prompt'', ''images''])]"

definition all_keys :: "string list" where
  "all_keys = [''image'', ''images'', ''sync'', ''scale'', ''prompt'', ''mode'', ''aspect_ratio'',
     ''desired_increase'', ''resolution'', ''steps_num'', ''mask'', ''version'', ''mask_type'']"

definition key_vector :: "string list \<Rightarrow> bool list" where
  "key_vector ks = map (\<lambda>k. k \<in> set ks) all_keys"

definition shapes_differ :: "(string \<times> string list) list \<Rightarrow> bool" where
  "shapes_differ table =
     list_all (\<lambda>x. list_all (\<lambda>y. fst x = fst y \<or> key_vector (snd x) \<noteq> key_vector (snd y)) table) table"

text \<open>A request trace that consists of one request, sent to the claimed endpoint
  with one of the tabled shapes.\<close>

definition conforms :: "string option \<Rightarrow> bool \<Rightarrow> http_request list \<Rightarrow> bool" where
  "conforms opn has_mask reqs =
     (\<exists>req. reqs = [req] \<and> req_url req = claimed_endpoint opn has_mask
        \<and> (req_url req, body_keys req) \<in> set branch_shapes)"

section \<open>Sample editor states\<close>

text \<open>A one-pixel image on which three strokes are painted: the first two are
  finished with a pointer-up, the third is still in progress.\<close>

definition stroke_a :: "byte list" where "stroke_a = [255, 0, 0, 128]"



text \<open>One finished stroke on the one-pixel image, then \<open>clearMask\<close>, then undo,
  then redo.\<close>

definition cleared_editor :: editor where
  "cleared_editor =
     clearMask (handlePointerUp (handlePointerDown stroke_a (imageLoaded 1 1 mounted_editor)))"

definition stale_undo_editor :: editor where
  "stale_undo_editor = undo cleared_editor"

definition stale_redo_editor :: editor where
  "stale_redo_editor = redo stale_undo_editor"

text \<open>Finished strokes painted one after the other on the one-pixel image, the
  \<open>n\<close>-th leaving the content \<open>stroke_of n\<close>; fifty of them fill the history.\<close>

definition stroke_of :: "nat \<Rightarrow> byte list" where
  "stroke_of n = [of_nat n, 0, 0, 255]"

definition snapshot :: "nat \<Rightarrow> image_data" where
  "snapshot n = \<lparr>img_width = 1, img_height = 1, img_data = stroke_of n\<rparr>"

fun paint_strokes :: "nat \<Rightarrow> editor \<Rightarrow> editor" where
  "paint_strokes 0 s = s"
| "paint_strokes (Suc n) s = handlePointerUp (handlePointerDown (stroke_of n) (paint_strokes n s))"

definition full_editor :: editor where
  "full_editor = paint_strokes 50 (imageLoaded 1 1 mounted_editor)"

section \<open>Properties of the generation endpoint\<close>

lemma truthy_strE:
  assumes "truthy_str t"
  obtains s where "t = Some s" "s \<noteq> []"
  using assms by (cases t) (auto simp: truthy_str_def)

lemma with_token_Some [simp]:
  "s \<noteq> [] \<Longrightarrow> with_token (Some s) a f = f s"
  by (simp add: with_token_def)

lemma with_token_falsy:
  "\<not> truthy_str t \<Longrightarrow> with_token t a f = a"
  by (auto simp: with_token_def truthy_str_def split: option.splits)

lemma fst_await [simp]: "fst (await c) = fst c"
  by (simp add: await_def)

lemma POST_valid:
  assumes "rb_image body = Some i" "i \<noteq> []" "rb_params body = Some params"
  shows "POST e (Inr body) =
           (let sw = route_switch e i (rb_mask body) params (rb_prompt body) (rb_operation body)
            in case snd sw of
                 Inl err \<Rightarrow> (fst sw, catch_response err)
               | Inr (Inl early) \<Rightarrow> (fst sw, early)
               | Inr (Inr result) \<Rightarrow> (fst sw, \<lparr>nr_status = 200, nr_body = result_body result\<rparr>))"
  using assms by (simp add: POST_def truthy_str_def)

lemma fst_POST_valid:
  assumes "rb_image body = Some i" "i \<noteq> []" "rb_params body = Some params"
  shows "fst (POST e (Inr body)) =
           fst (route_switch e i (rb_mask body) params (rb_prompt body) (rb_operation body))"
  by (simp add: POST_valid [OF assms] Let_def split: sum.splits)

subsection \<open>Requests rejected before any external call\<close>

lemma route_switch_erase_no_mask:
  "\<not> truthy_str m \<Longrightarrow>
   route_switch e i m params p (Some ''erase_element'') = ([], Inr (Inl erase_needs_mask))"
  by (auto simp: route_switch_def truthy_str_def split: option.splits)

lemma route_switch_inpaint_no_mask:
  "\<not> truthy_str m \<Longrightarrow> opn \<in> {''inpaint_remove'', ''inpaint_replace'', ''inpaint_add''} \<Longrightarrow>
   route_switch e i m params p (Some opn) = ([], Inr (Inl inpaint_needs_mask))"
  by (auto simp: route_switch_def)

text \<open>
  Claim C3. The handler answers with status 400 and sends nothing to the external
  API when the body has no image, when it has no params, or when the operation is
  \<open>erase_element\<close>, \<open>inpaint_remove\<close>, \<open>inpaint_replace\<close> or \<open>inpaint_add\<close> and
  there is no mask. The checks run in that order, so the body of the response is
  that of the first check that fails: \<open>Image is required\<close>, then
  \<open>FIBO parameters are required\<close>, then the missing-mask message together with
  \<open>needsMask: true\<close>.
\<close>

theorem C3_rejected_requests:
  assumes "\<not> truthy_str (rb_image body) \<or> rb_params body = None
           \<or> (rb_operation body \<in> {Some ''erase_element'', Some ''inpaint_remove'',
                 Some ''inpaint_replace'', Some ''inpaint_add''} \<and> \<not> truthy_str (rb_mask body))"
  shows "fst (POST e (Inr body)) = []
         \<and> nr_status (snd (POST e (Inr body))) = 400
         \<and> nr_body (snd (POST e (Inr body))) =
             (if \<not> truthy_str (rb_image body) then JObj [(''error'', JStr ''Image is required'')]
              else if rb_params body = None then JObj [(''error'', JStr ''FIBO parameters are required'')]
              else JObj [(''error'',
                           JStr (if rb_operation body = Some ''erase_element''
                                 then ''Please draw on the element you want to erase first!''
                                 else ''Please draw on the area you want to edit first! Use the brush tool to mark the region, then try again.'')),
                         (''needsMask'', JBool True)])"
proof (cases "truthy_str (rb_image body)")
  case False
  then show ?thesis by (simp add: POST_def error_body_def)
next
  case img: True
  then obtain i where i: "rb_image body = Some i" "i \<noteq> []" by (rule truthy_strE)
  show ?thesis
  proof (cases "rb_params body")
    case None
    with img show ?thesis by (simp add: POST_def error_body_def)
  next
    case (Some params)
    with assms img have m: "\<not> truthy_str (rb_mask body)"
      and op: "rb_operation body \<in> {Some ''erase_element'', Some ''inpaint_remove'',
                 Some ''inpaint_replace'', Some ''inpaint_add''}" by auto
    show ?thesis
    proof (cases "rb_operation body = Some ''erase_element''")
      case True
      then show ?thesis using img Some
        by (simp add: POST_valid [OF i Some] route_switch_erase_no_mask [OF m] erase_needs_mask_def)
    next
      case False
      with op obtain opn where opn: "rb_operation body = Some opn"
        "opn \<in> {''inpaint_remove'', ''inpaint_replace'', ''inpaint_add''}" by auto
      show ?thesis using img Some False
        by (simp add: POST_valid [OF i Some] opn(1)
            route_switch_inpaint_no_mask [OF m opn(2)] inpaint_needs_mask_def)
    qed
  qed
qed

theorem C3_rejected_requests_witness:
  "\<not> truthy_str (rb_mask (sample_body ''inpaint_add'' None))
   \<and> POST failing_env (Inr (sample_body ''inpaint_add'' None)) =
       ([], \<lparr>nr_status = 400,
             nr_body = JObj [(''error'', JStr ''Please draw on the area you want to edit first! Use the brush tool to mark the region, then try again.''),
                             (''needsMask'', JBool True)]\<rparr>)"
  using C3_rejected_requests [of "sample_body ''inpaint_add'' None" failing_env]
  by (simp add: sample_body_def truthy_str_def prod_eq_iff next_response.equality)

subsection \<open>Without a token\<close>



subsection \<open>The blur scale\<close>

lemma fst_blurBackground:
  "tok \<noteq> [] \<Longrightarrow>
   fst (blurBackground e i (Some x) (Some tok)) =
     [post_request (BRIA_EDIT_BASE @ ''/blur_background'') tok
        [(''image'', stripDataUrl i),
         (''scale'', JNum (of_int (min 5 (max 1 (js_round (x / 20)))))),
         (''sync'', JBool True)]]"
  by (simp add: blurBackground_def Let_def)

lemma route_switch_blur:
  "route_switch e i m params p (Some ''background_blur'') =
     await (blurBackground e i (Some (js_or_num (blur_intensity params) 50)) (BRIA_API_TOKEN e))"
  by (simp add: route_switch_def Let_def)

text \<open>
  Claim C10. For a \<open>background_blur\<close> request that reaches the external API (image,
  params and token present), the one request sent goes to the blur endpoint and its
  \<open>scale\<close> is an integer \<open>k\<close> with \<open>1 \<le> k \<le> 5\<close>, equal to \<open>round(i / 20)\<close> clamped
  to that range, where \<open>i\<close> is \<open>params.blur_intensity\<close> when it is a nonzero number
  and 50 otherwise; a \<open>blur_intensity\<close> of 0 gives scale 3.
\<close>

theorem C10_blur_scale:
  assumes op: "rb_operation body = Some ''background_blur''"
      and img: "truthy_str (rb_image body)"
      and par: "rb_params body = Some params"
      and tok: "truthy_str (BRIA_API_TOKEN e)"
  shows "\<exists>req k. fst (POST e (Inr body)) = [req]
           \<and> req_url req = ''https://engine.prod.bria-api.com/v2/image/edit/blur_background''
           \<and> map_of (req_body req) ''scale'' = Some (JNum (of_int k))
           \<and> 1 \<le> k \<and> k \<le> 5
           \<and> k = max 1 (min 5 (round ((case blur_intensity params of
                                          None \<Rightarrow> 50
                                        | Some i \<Rightarrow> if i \<noteq> 0 then i else 50) / 20)))
           \<and> (blur_intensity params = Some 0 \<longrightarrow> k = 3)"
proof -
  from img obtain i where i: "rb_image body = Some i" "i \<noteq> []" by (rule truthy_strE)
  from tok obtain t where t: "BRIA_API_TOKEN e = Some t" "t \<noteq> []" by (rule truthy_strE)
  define x where "x = js_or_num (blur_intensity params) 50"
  define k where "k = min 5 (max 1 (js_round (x / 20)))"
  have sent: "fst (POST e (Inr body)) =
      [post_request (BRIA_EDIT_BASE @ ''/blur_background'') t
        [(''image'', stripDataUrl i), (''scale'', JNum (of_int k)), (''sync'', JBool True)]]"
    by (simp add: fst_POST_valid [OF i par] op route_switch_blur t fst_blurBackground x_def k_def)
  have x: "x = (case blur_intensity params of None \<Rightarrow> 50 | Some i \<Rightarrow> if i \<noteq> 0 then i else 50)"
    by (simp add: x_def js_or_num_def)
  have k1: "1 \<le> k" and k5: "k \<le> 5" by (simp_all add: k_def)
  have kr: "k = max 1 (min 5 (round (x / 20)))"
    by (simp add: k_def js_round_def round_def max_def min_def)
  have k0: "blur_intensity params = Some 0 \<Longrightarrow> k = 3"
    by (simp add: k_def x_def js_or_num_def js_round_def)
  show ?thesis
    apply (rule exI [of _ "post_request (BRIA_EDIT_BASE @ ''/blur_background'') t
        [(''image'', stripDataUrl i), (''scale'', JNum (of_int k)), (''sync'', JBool True)]"])
    apply (rule exI [of _ k])
    using sent k1 k5 kr k0 x
    apply (simp add: post_request_def BRIA_EDIT_BASE_def)
    done
qed

theorem C10_blur_scale_witness:
  "rb_operation (sample_body ''background_blur'' None) = Some ''background_blur''
   \<and> truthy_str (rb_image (sample_body ''background_blur'' None))
   \<and> rb_params (sample_body ''background_blur'' None) = Some sample_params
   \<and> truthy_str (BRIA_API_TOKEN failing_env)
   \<and> blur_intensity sample_params = Some 0
   \<and> map (\<lambda>r. map_of (req_body r) ''scale'')
        (fst (POST failing_env (Inr (sample_body ''background_blur'' None)))) = [Some (JNum 3)]"
  using C10_blur_scale [of "sample_body ''background_blur'' None" sample_params failing_env]
  by (auto simp: sample_body_def sample_params_def failing_env_def truthy_str_def)

subsection \<open>The error path\<close>

lemma failed_callI:
  assumes "always_fails e" and "\<And>r. \<exists>msg. B r = Error msg"
  shows "failed_call e ([q], case fetch e q of Inl err \<Rightarrow> Inl err
                         | Inr response \<Rightarrow> if \<not> ok response then Inl (B response) else C response)"
proof (cases "fetch e q")
  case (Inl t)
  then show ?thesis by (simp add: failed_call_def)
next
  case (Inr r)
  moreover from assms(1) Inr have "\<not> ok r"
    by (auto simp: always_fails_def split: sum.splits dest: spec [of _ q])
  ultimately show ?thesis using assms(2) [of r] by (auto simp: failed_call_def)
qed

lemma failed_callI2:
  assumes "always_fails e" and "\<And>r. \<exists>msg. B r = Error msg" and "\<And>r. \<exists>msg. B' r = Error msg"
  shows "failed_call e ([q], case fetch e q of Inl err \<Rightarrow> Inl err
                         | Inr response \<Rightarrow> if \<not> ok response
                              then (if D response then Inl (B response) else Inl (B' response))
                              else C response)"
proof (cases "fetch e q")
  case (Inl t)
  then show ?thesis by (simp add: failed_call_def)
next
  case (Inr r)
  moreover from assms(1) Inr have "\<not> ok r"
    by (auto simp: always_fails_def split: sum.splits dest: spec [of _ q])
  ultimately show ?thesis using assms(2) [of r] assms(3) [of r] by (auto simp: failed_call_def)
qed

lemma status_error_is_Error: "\<exists>msg. status_error w r = Error msg"
  by (simp add: status_error_def)

lemma removeBackground_fails:
  "always_fails e \<Longrightarrow> tok \<noteq> [] \<Longrightarrow> failed_call e (removeBackground e i (Some tok))"
  by (simp add: removeBackground_def Let_def failed_callI status_error_is_Error)

lemma blurBackground_fails:
  "always_fails e \<Longrightarrow> tok \<noteq> [] \<Longrightarrow> failed_call e (blurBackground e i x (Some tok))"
  by (simp add: blurBackground_def Let_def failed_callI status_error_is_Error)

lemma replaceBackground_fails:
  "always_fails e \<Longrightarrow> tok \<noteq> [] \<Longrightarrow> failed_call e (replaceBackground e i p (Some tok))"
  by (simp add: replaceBackground_def Let_def failed_callI status_error_is_Error)

lemma expandImage_fails:
  "always_fails e \<Longrightarrow> tok \<noteq> [] \<Longrightarrow> failed_call e (expandImage e i d a p (Some tok))"
  by (simp add: expandImage_def Let_def failed_callI2 status_error_is_Error)

lemma upscaleImage_fails:
  "always_fails e \<Longrightarrow> tok \<noteq> [] \<Longrightarrow> failed_call e (upscaleImage e i f (Some tok))"
  by (simp add: upscaleImage_def Let_def failed_callI status_error_is_Error)

lemma enhanceImage_fails:
  "always_fails e \<Longrightarrow> tok \<noteq> [] \<Longrightarrow> failed_call e (enhanceImage e i r (Some tok))"
  by (simp add: enhanceImage_def Let_def failed_callI status_error_is_Error)

lemma eraseElements_fails:
  "always_fails e \<Longrightarrow> tok \<noteq> [] \<Longrightarrow> failed_call e (eraseElements e i m (Some tok))"
  by (simp add: eraseElements_def Let_def failed_callI status_error_is_Error)

lemma generateWithGenFill_fails:
  "always_fails e \<Longrightarrow> failed_call e (generateWithGenFill e i m p tok)"
  by (simp add: generateWithGenFill_def Let_def failed_callI)

lemma generateStandard_fails:
  "always_fails e \<Longrightarrow> failed_call e (generateStandard e i p tok)"
  by (simp add: generateStandard_def Let_def failed_callI)

lemma generateImage_fails:
  "always_fails e \<Longrightarrow> tok \<noteq> [] \<Longrightarrow> failed_call e (generateImage e i m params p (Some tok))"
  by (simp add: generateImage_def Let_def generateWithGenFill_fails generateStandard_fails)

lemma await_fails: "failed_call e c \<Longrightarrow> failed_call e (await c)"
  by (auto simp: failed_call_def await_def)


lemma route_switch_remove:
  "route_switch e i m params p (Some ''background_remove'') =
     await (removeBackground e i (BRIA_API_TOKEN e))"
  by (simp add: route_switch_def Let_def)

lemma route_switch_replace:
  "route_switch e i m params p (Some ''background_replace'') =
     await (replaceBackground e i
              (js_or_str (new_background params) (js_or_str p ''professional studio background''))
              (BRIA_API_TOKEN e))"
  by (simp add: route_switch_def Let_def)

lemma route_switch_expand:
  "route_switch e i m params p (Some ''image_expand'') =
     await (expandImage e i (Some (js_or_str (expand_direction params) ''all''))
              (Some (js_or_num (expand_amount params) 25)) p (BRIA_API_TOKEN e))"
  by (simp add: route_switch_def Let_def)

lemma route_switch_upscale:
  "route_switch e i m params p (Some ''image_upscale'') =
     await (upscaleImage e i (Some (js_or_num (upscale_factor params) 2)) (BRIA_API_TOKEN e))"
  by (simp add: route_switch_def Let_def)

lemma route_switch_enhance:
  "route_switch e i m params p (Some ''hdr_enhance'') =
     await (enhanceImage e i (Some (js_or_str (hdr_resolution params) ''2MP'')) (BRIA_API_TOKEN e))"
  by (simp add: route_switch_def Let_def)

lemma route_switch_erase:
  "mk \<noteq> [] \<Longrightarrow>
   route_switch e i (Some mk) params p (Some ''erase_element'') =
     await (eraseElements e i mk (BRIA_API_TOKEN e))"
  by (simp add: route_switch_def Let_def)

lemma route_switch_inpaint:
  "truthy_str m \<Longrightarrow> opn \<in> {''inpaint_remove'', ''inpaint_replace'', ''inpaint_add''} \<Longrightarrow>
   route_switch e i m params p (Some opn) = default_generation e i m params p (Some opn)"
  by (auto simp: route_switch_def Let_def)

lemma route_switch_other:
  assumes "opn \<noteq> Some ''background_remove''" "opn \<noteq> Some ''background_blur''"
    "opn \<noteq> Some ''background_replace''" "opn \<noteq> Some ''image_expand''"
    "opn \<noteq> Some ''image_upscale''" "opn \<noteq> Some ''hdr_enhance''" "opn \<noteq> Some ''erase_element''"
    "opn \<noteq> Some ''inpaint_remove''" "opn \<noteq> Some ''inpaint_replace''" "opn \<noteq> Some ''inpaint_add''"
  shows "route_switch e i m params p opn = default_generation e i m params p opn"
  using assms by (simp add: route_switch_def Let_def)

lemma ten_way_cases:
  assumes "x = a1 \<Longrightarrow> P" "x = a2 \<Longrightarrow> P" "x = a3 \<Longrightarrow> P" "x = a4 \<Longrightarrow> P" "x = a5 \<Longrightarrow> P"
    "x = a6 \<Longrightarrow> P" "x = a7 \<Longrightarrow> P" "x = a8 \<Longrightarrow> P" "x = a9 \<Longrightarrow> P" "x = a10 \<Longrightarrow> P"
    "\<lbrakk>x \<noteq> a1; x \<noteq> a2; x \<noteq> a3; x \<noteq> a4; x \<noteq> a5; x \<noteq> a6; x \<noteq> a7; x \<noteq> a8; x \<noteq> a9; x \<noteq> a10\<rbrakk> \<Longrightarrow> P"
  shows P
  using assms by blast

lemmas operation_cases [case_names remove blur replace expand upscale enhance erase
    inpaint_remove inpaint_replace inpaint_add other] =
  ten_way_cases [of _ "Some ''background_remove''" _ "Some ''background_blur''"
    "Some ''background_replace''" "Some ''image_expand''" "Some ''image_upscale''"
    "Some ''hdr_enhance''" "Some ''erase_element''" "Some ''inpaint_remove''"
    "Some ''inpaint_replace''" "Some ''inpaint_add''"]

lemma route_switch_fails:
  assumes af: "always_fails e" and tok: "BRIA_API_TOKEN e = Some tok" "tok \<noteq> []"
      and mask_ok: "opn \<in> {Some ''erase_element'', Some ''inpaint_remove'',
                 Some ''inpaint_replace'', Some ''inpaint_add''} \<longrightarrow> truthy_str m"
  shows "failed_call e (route_switch e i m params p opn)"
proof -
  have dflt: "failed_call e (default_generation e i m params p opn)"
    by (simp add: default_generation_def Let_def tok(1) await_fails generateImage_fails [OF af tok(2)])
  have inp: "opn = Some o' \<Longrightarrow> o' \<in> {''inpaint_remove'', ''inpaint_replace'', ''inpaint_add''}
      \<Longrightarrow> ?thesis" for o'
  proof -
    assume o: "opn = Some o'" "o' \<in> {''inpaint_remove'', ''inpaint_replace'', ''inpaint_add''}"
    with mask_ok have "truthy_str m" by auto
    from route_switch_inpaint [OF this o(2)] dflt show ?thesis by (simp add: o(1))
  qed
  show ?thesis
  proof (cases opn rule: operation_cases)
    case remove
    then show ?thesis
      by (simp add: route_switch_remove tok(1) await_fails removeBackground_fails [OF af tok(2)])
  next
    case blur
    then show ?thesis
      by (simp add: route_switch_blur tok(1) await_fails blurBackground_fails [OF af tok(2)])
  next
    case replace
    then show ?thesis
      by (simp add: route_switch_replace tok(1) await_fails replaceBackground_fails [OF af tok(2)])
  next
    case expand
    then show ?thesis
      by (simp add: route_switch_expand tok(1) await_fails expandImage_fails [OF af tok(2)])
  next
    case upscale
    then show ?thesis
      by (simp add: route_switch_upscale tok(1) await_fails upscaleImage_fails [OF af tok(2)])
  next
    case enhance
    then show ?thesis
      by (simp add: route_switch_enhance tok(1) await_fails enhanceImage_fails [OF af tok(2)])
  next
    case erase
    with mask_ok have "truthy_str m" by simp
    then obtain mk where mk: "m = Some mk" "mk \<noteq> []" by (rule truthy_strE)
    show ?thesis
      by (simp add: erase mk route_switch_erase tok(1) await_fails eraseElements_fails [OF af tok(2)])
  next
    case inpaint_remove
    then show ?thesis by (rule inp) simp
  next
    case inpaint_replace
    then show ?thesis by (rule inp) simp
  next
    case inpaint_add
    then show ?thesis by (rule inp) simp
  next
    case other
    from route_switch_other [OF other] dflt show ?thesis by simp
  qed
qed

text \<open>
  Claim C2. When the external API answers every request with a non-OK status, a
  request that reaches a client function (image, params and token present, mask
  present where the operation needs one) makes that function send exactly one request
  and throw an \<open>Error\<close>; the handler answers with status 500 and the thrown
  message as \<open>error\<close>. When \<open>fetch\<close> rejects with a value that is not an \<open>Error\<close>,
  the handler answers 500 with \<open>Failed to generate image\<close>.
\<close>

theorem C2_error_propagation:
  assumes img: "truthy_str (rb_image body)"
      and par: "rb_params body = Some params"
      and tok: "truthy_str (BRIA_API_TOKEN e)"
      and mask_ok: "rb_operation body \<in> {Some ''erase_element'', Some ''inpaint_remove'',
                      Some ''inpaint_replace'', Some ''inpaint_add''} \<longrightarrow> truthy_str (rb_mask body)"
      and not_ok: "\<forall>req. \<exists>response. fetch e req = Inr response \<and> \<not> ok response"
  shows "(\<exists>req msg.
            route_switch e (the (rb_image body)) (rb_mask body) params (rb_prompt body)
              (rb_operation body) = ([req], Inl (Error msg))
          \<and> POST e (Inr body) =
              ([req], \<lparr>nr_status = 500, nr_body = JObj [(''error'', JStr msg)]\<rparr>))
       \<and> (\<exists>req. POST (e\<lparr>fetch := (\<lambda>r. Inl Thrown_other)\<rparr>) (Inr body) =
              ([req], \<lparr>nr_status = 500, nr_body = JObj [(''error'', JStr ''Failed to generate image'')]\<rparr>))"
proof -
  from img obtain i where i: "rb_image body = Some i" "i \<noteq> []" by (rule truthy_strE)
  from tok obtain t where t: "BRIA_API_TOKEN e = Some t" "t \<noteq> []" by (rule truthy_strE)
  let ?e' = "e\<lparr>fetch := (\<lambda>r. Inl Thrown_other)\<rparr>"
  have af: "always_fails e"
    unfolding always_fails_def
  proof
    fix req
    from not_ok obtain r where "fetch e req = Inr r" "\<not> ok r" by blast
    then show "case fetch e req of Inl t \<Rightarrow> True | Inr r \<Rightarrow> \<not> ok r" by simp
  qed
  have af': "always_fails ?e'" by (simp add: always_fails_def)
  from route_switch_fails [OF af t mask_ok]
  obtain req th where sw: "route_switch e i (rb_mask body) params (rb_prompt body)
      (rb_operation body) = ([req], Inl th)"
    and th: "case fetch e req of Inl t' \<Rightarrow> th = t' | Inr r \<Rightarrow> \<exists>msg. th = Error msg"
    unfolding failed_call_def by blast
  from not_ok obtain r where "fetch e req = Inr r" by blast
  with th obtain msg where msg: "th = Error msg" by auto
  have one: "POST e (Inr body) = ([req], \<lparr>nr_status = 500, nr_body = JObj [(''error'', JStr msg)]\<rparr>)"
    by (simp add: POST_valid [OF i par] sw msg catch_response_def error_body_def)
  have t': "BRIA_API_TOKEN ?e' = Some t" using t by simp
  from route_switch_fails [OF af' t' t(2) mask_ok]
  obtain req' th' where sw': "route_switch ?e' i (rb_mask body) params (rb_prompt body)
      (rb_operation body) = ([req'], Inl th')"
    and th': "case fetch ?e' req' of Inl t' \<Rightarrow> th' = t' | Inr r \<Rightarrow> \<exists>msg. th' = Error msg"
    unfolding failed_call_def by blast
  from th' have "th' = Thrown_other" by simp
  then have two: "POST ?e' (Inr body) =
      ([req'], \<lparr>nr_status = 500, nr_body = JObj [(''error'', JStr ''Failed to generate image'')]\<rparr>)"
    by (simp add: POST_valid [OF i par] sw' catch_response_def error_body_def)
  from sw msg one i have "\<exists>req msg.
            route_switch e (the (rb_image body)) (rb_mask body) params (rb_prompt body)
              (rb_operation body) = ([req], Inl (Error msg))
          \<and> POST e (Inr body) =
              ([req], \<lparr>nr_status = 500, nr_body = JObj [(''error'', JStr msg)]\<rparr>)"
    by auto
  with two show ?thesis by blast
qed

lemma strip_sample_image: "stripDataUrl ''data:image/png;base64,AAAA'' = JStr ''AAAA''"
  by (simp add: stripDataUrl_def str_index_def)

lemma show_nat_500: "show_nat 500 = ''500''"
  by (simp add: show_nat.simps digit_char_def)

lemma upscale_failure_example:
  "POST failing_env (Inr (sample_body ''image_upscale'' None)) =
     ([post_request ''https://engine.prod.bria-api.com/v2/image/edit/increase_resolution'' ''tok''
         [(''image'', JStr ''AAAA''), (''desired_increase'', JNum 2), (''sync'', JBool True)]],
      \<lparr>nr_status = 500, nr_body = JObj [(''error'', JStr ''Image upscale failed: 500 - boom'')]\<rparr>)"
  by (simp add: sample_body_def sample_params_def failing_env_def truthy_str_def ok_def
      POST_def route_switch_def await_def upscaleImage_def js_or_num_def status_error_def
      strip_sample_image show_nat_500 BRIA_EDIT_BASE_def with_token_def
      catch_response_def error_body_def Let_def)

theorem C2_error_propagation_witness:
  "truthy_str (rb_image (sample_body ''image_upscale'' None))
   \<and> rb_params (sample_body ''image_upscale'' None) = Some sample_params
   \<and> truthy_str (BRIA_API_TOKEN failing_env)
   \<and> (\<forall>req. \<exists>response. fetch failing_env req = Inr response \<and> \<not> ok response)
   \<and> (\<exists>req msg. POST failing_env (Inr (sample_body ''image_upscale'' None)) =
          ([req], \<lparr>nr_status = 500, nr_body = JObj [(''error'', JStr msg)]\<rparr>))
   \<and> (\<exists>req. POST rejecting_env (Inr (sample_body ''image_upscale'' None)) =
          ([req], \<lparr>nr_status = 500, nr_body = JObj [(''error'', JStr ''Failed to generate image'')]\<rparr>))"
proof -
  have h1: "truthy_str (rb_image (sample_body ''image_upscale'' None))"
    by (simp add: sample_body_def truthy_str_def)
  have h2: "rb_params (sample_body ''image_upscale'' None) = Some sample_params"
    by (simp add: sample_body_def)
  have h3: "truthy_str (BRIA_API_TOKEN failing_env)"
    by (simp add: failing_env_def truthy_str_def)
  have h4: "rb_operation (sample_body ''image_upscale'' None) \<in> {Some ''erase_element'',
      Some ''inpaint_remove'', Some ''inpaint_replace'', Some ''inpaint_add''}
      \<longrightarrow> truthy_str (rb_mask (sample_body ''image_upscale'' None))"
    by (simp add: sample_body_def)
  have h5: "\<forall>req. \<exists>response. fetch failing_env req = Inr response \<and> \<not> ok response"
    by (simp add: failing_env_def ok_def)
  from C2_error_propagation [OF h1 h2 h3 h4 h5] h1 h2 h3 h5 show ?thesis
    unfolding rejecting_env_def by blast
qed


subsection \<open>The dispatch\<close>

lemma branch_shapes_differ: "shapes_differ branch_shapes"
  by code_simp

lemma key_vector_cong: "set ks = set ks' \<Longrightarrow> key_vector ks = key_vector ks'"
  by (simp add: key_vector_def)

lemma shapes_differ_D:
  assumes "shapes_differ table" "(u1, k1) \<in> set table" "(u2, k2) \<in> set table" "u1 \<noteq> u2"
  shows "set k1 \<noteq> set k2"
proof
  assume "set k1 = set k2"
  then have "key_vector k1 = key_vector k2" by (rule key_vector_cong)
  moreover from assms have "key_vector k1 \<noteq> key_vector k2"
    by (fastforce simp: shapes_differ_def list_all_iff)
  ultimately show False by contradiction
qed

lemma fst_removeBackground:
  "tok \<noteq> [] \<Longrightarrow> fst (removeBackground e i (Some tok)) =
     [post_request (BRIA_EDIT_BASE @ ''/remove_background'') tok
        [(''image'', stripDataUrl i), (''sync'', JBool True)]]"
  by (simp add: removeBackground_def Let_def)

lemma fst_replaceBackground:
  "tok \<noteq> [] \<Longrightarrow> fst (replaceBackground e i p (Some tok)) =
     [post_request (BRIA_EDIT_BASE @ ''/replace_background'') tok
        [(''image'', stripDataUrl i), (''prompt'', JStr p), (''mode'', JStr ''high_control''),
         (''sync'', JBool True)]]"
  by (simp add: replaceBackground_def Let_def)

lemma fst_expandImage:
  "tok \<noteq> [] \<Longrightarrow> fst (expandImage e i (Some d) a p (Some tok)) =
     [post_request (BRIA_EDIT_BASE @ ''/expand'') tok
        ([(''image'', stripDataUrl i), (''aspect_ratio'', JStr (expand_aspect_ratio d)),
          (''sync'', JBool True)]
         @ (case p of None \<Rightarrow> []
            | Some q \<Rightarrow> if q \<noteq> [] \<and> trim q \<noteq> [] then [(''prompt'', JStr q)] else []))]"
  by (simp add: expandImage_def Let_def)

lemma fst_upscaleImage:
  "tok \<noteq> [] \<Longrightarrow> fst (upscaleImage e i (Some f) (Some tok)) =
     [post_request (BRIA_EDIT_BASE @ ''/increase_resolution'') tok
        [(''image'', stripDataUrl i), (''desired_increase'', JNum f), (''sync'', JBool True)]]"
  by (simp add: upscaleImage_def Let_def)

lemma fst_enhanceImage:
  "tok \<noteq> [] \<Longrightarrow> fst (enhanceImage e i (Some r) (Some tok)) =
     [post_request (BRIA_EDIT_BASE @ ''/enhance'') tok
        [(''image'', stripDataUrl i), (''resolution'', JStr r), (''steps_num'', JNum 20),
         (''sync'', JBool True)]]"
  by (simp add: enhanceImage_def Let_def)

lemma fst_eraseElements:
  "tok \<noteq> [] \<Longrightarrow> fst (eraseElements e i m (Some tok)) =
     [post_request (BRIA_EDIT_BASE @ ''/erase'') tok
        [(''image'', stripDataUrl i), (''mask'', stripDataUrl m), (''sync'', JBool True)]]"
  by (simp add: eraseElements_def Let_def)

lemma fst_generateImage_mask:
  "tok \<noteq> [] \<Longrightarrow> i \<noteq> [] \<Longrightarrow> m \<noteq> [] \<Longrightarrow>
   fst (generateImage e i (Some m) params p (Some tok)) =
     [post_request (BRIA_EDIT_BASE @ ''/gen_fill'') tok
        [(''image'', stripDataUrl i), (''mask'', stripDataUrl m),
         (''prompt'', JStr (buildRichPrompt (number_to_string e) params p)), (''sync'', JBool True),
         (''version'', JNum 2), (''mask_type'', JStr ''manual'')]]"
  by (simp add: generateImage_def generateWithGenFill_def truthy_str_def Let_def)

lemma fst_generateImage_no_mask:
  "tok \<noteq> [] \<Longrightarrow> i \<noteq> [] \<Longrightarrow> \<not> truthy_str m \<Longrightarrow>
   fst (generateImage e i m params p (Some tok)) =
     [post_request (BRIA_API_BASE @ ''/image/generate'') tok
        [(''sync'', JBool True), (''aspect_ratio'', JStr ''1:1''),
         (''prompt'', JStr (buildRichPrompt (number_to_string e) params p)), (''images'', JArr [stripDataUrl i])]]"
  by (simp add: generateImage_def generateStandard_def Let_def)


lemmas conforms_simps = conforms_def post_request_def BRIA_EDIT_BASE_def BRIA_API_BASE_def
  claimed_endpoint_def body_keys_def branch_shapes_def

lemma default_generation_conforms:
  assumes tok: "BRIA_API_TOKEN e = Some tok" "tok \<noteq> []" and i: "i \<noteq> []"
      and other: "opn \<noteq> Some ''background_remove''" "opn \<noteq> Some ''background_blur''"
        "opn \<noteq> Some ''background_replace''" "opn \<noteq> Some ''image_expand''"
        "opn \<noteq> Some ''image_upscale''" "opn \<noteq> Some ''hdr_enhance''" "opn \<noteq> Some ''erase_element''"
  shows "conforms opn (truthy_str m) (fst (default_generation e i m params p opn))"
proof (cases "truthy_str m")
  case True
  then obtain mk where mk: "m = Some mk" "mk \<noteq> []" by (rule truthy_strE)
  from True other show ?thesis
    by (simp add: default_generation_def Let_def tok(1) mk(1)
        fst_generateImage_mask [OF tok(2) i mk(2)] conforms_simps)
next
  case False
  with other show ?thesis
    by (simp add: default_generation_def Let_def tok(1)
        fst_generateImage_no_mask [OF tok(2) i False] conforms_simps)
qed

lemma route_switch_conforms:
  assumes tok: "BRIA_API_TOKEN e = Some tok" "tok \<noteq> []" and i: "i \<noteq> []"
      and mask_ok: "opn \<in> {Some ''erase_element'', Some ''inpaint_remove'',
                 Some ''inpaint_replace'', Some ''inpaint_add''} \<longrightarrow> truthy_str m"
  shows "conforms opn (truthy_str m) (fst (route_switch e i m params p opn))"
proof -
  note dflt = default_generation_conforms [OF tok i, of opn m params p]
  have inp: "opn = Some o' \<Longrightarrow> o' \<in> {''inpaint_remove'', ''inpaint_replace'', ''inpaint_add''}
      \<Longrightarrow> ?thesis" for o'
  proof -
    assume o: "opn = Some o'" "o' \<in> {''inpaint_remove'', ''inpaint_replace'', ''inpaint_add''}"
    with mask_ok have "truthy_str m" by auto
    from route_switch_inpaint [OF this o(2)] have
      "route_switch e i m params p opn = default_generation e i m params p opn"
      by (simp add: o(1))
    moreover from o have "conforms opn (truthy_str m) (fst (default_generation e i m params p opn))"
      by (intro dflt) auto
    ultimately show ?thesis by simp
  qed
  show ?thesis
  proof (cases opn rule: operation_cases)
    case remove
    then show ?thesis
      by (simp add: route_switch_remove tok(1) fst_removeBackground [OF tok(2)] conforms_simps)
  next
    case blur
    then show ?thesis
      by (simp add: route_switch_blur tok(1) fst_blurBackground [OF tok(2)] conforms_simps)
  next
    case replace
    then show ?thesis
      by (simp add: route_switch_replace tok(1) fst_replaceBackground [OF tok(2)] conforms_simps)
  next
    case expand
    then show ?thesis
      by (simp add: route_switch_expand tok(1) fst_expandImage [OF tok(2)] conforms_simps
          split: option.splits)
  next
    case upscale
    then show ?thesis
      by (simp add: route_switch_upscale tok(1) fst_upscaleImage [OF tok(2)] conforms_simps)
  next
    case enhance
    then show ?thesis
      by (simp add: route_switch_enhance tok(1) fst_enhanceImage [OF tok(2)] conforms_simps)
  next
    case erase
    with mask_ok have "truthy_str m" by simp
    then obtain mk where mk: "m = Some mk" "mk \<noteq> []" by (rule truthy_strE)
    show ?thesis
      by (simp add: erase mk(1) route_switch_erase [OF mk(2)] tok(1)
          fst_eraseElements [OF tok(2)] conforms_simps)
  next
    case inpaint_remove
    then show ?thesis by (rule inp) simp
  next
    case inpaint_replace
    then show ?thesis by (rule inp) simp
  next
    case inpaint_add
    then show ?thesis by (rule inp) simp
  next
    case other
    from route_switch_other [OF other] dflt [OF other(1-7)] show ?thesis by simp
  qed
qed

lemma POST_conforms:
  assumes b: "reaches_client body" and tok: "truthy_str (BRIA_API_TOKEN e)"
  shows "conforms (rb_operation body) (truthy_str (rb_mask body)) (fst (POST e (Inr body)))"
proof -
  from b obtain i where i: "rb_image body = Some i" "i \<noteq> []"
    unfolding reaches_client_def by (auto elim: truthy_strE)
  from b obtain params where par: "rb_params body = Some params"
    unfolding reaches_client_def by auto
  from tok obtain t where t: "BRIA_API_TOKEN e = Some t" "t \<noteq> []" by (rule truthy_strE)
  from b have mask_ok: "rb_operation body \<in> {Some ''erase_element'', Some ''inpaint_remove'',
      Some ''inpaint_replace'', Some ''inpaint_add''} \<longrightarrow> truthy_str (rb_mask body)"
    unfolding reaches_client_def by blast
  from route_switch_conforms [OF t i(2) mask_ok] show ?thesis
    by (simp add: fst_POST_valid [OF i par])
qed

lemma clients_no_token:
  assumes "\<not> truthy_str tok"
  shows "fst (removeBackground e i tok) = []" "fst (blurBackground e i intensity tok) = []"
    "fst (replaceBackground e i bg tok) = []" "fst (expandImage e i dir amt pr tok) = []"
    "fst (upscaleImage e i factor tok) = []" "fst (enhanceImage e i res tok) = []"
    "fst (eraseElements e i m tok) = []" "fst (generateImage e i mo params p tok) = []"
  using assms
  by (simp_all add: removeBackground_def blurBackground_def replaceBackground_def expandImage_def
      upscaleImage_def enhanceImage_def eraseElements_def generateImage_def with_token_falsy
      Let_def)

lemma route_switch_no_token:
  assumes tok: "\<not> truthy_str (BRIA_API_TOKEN e)"
      and mask_ok: "opn \<in> {Some ''erase_element'', Some ''inpaint_remove'',
                 Some ''inpaint_replace'', Some ''inpaint_add''} \<longrightarrow> truthy_str m"
  shows "fst (route_switch e i m params p opn) = []"
proof -
  note nt = clients_no_token [OF tok]
  have dflt: "fst (default_generation e i m params p opn) = []"
    by (simp add: default_generation_def Let_def nt)
  have inp: "opn = Some o' \<Longrightarrow> o' \<in> {''inpaint_remove'', ''inpaint_replace'', ''inpaint_add''}
      \<Longrightarrow> ?thesis" for o'
  proof -
    assume o: "opn = Some o'" "o' \<in> {''inpaint_remove'', ''inpaint_replace'', ''inpaint_add''}"
    with mask_ok have "truthy_str m" by auto
    from route_switch_inpaint [OF this o(2)] dflt show ?thesis by (simp add: o(1))
  qed
  show ?thesis
  proof (cases opn rule: operation_cases)
    case remove
    then show ?thesis by (simp add: route_switch_remove nt)
  next
    case blur
    then show ?thesis by (simp add: route_switch_blur nt)
  next
    case replace
    then show ?thesis by (simp add: route_switch_replace nt)
  next
    case expand
    then show ?thesis by (simp add: route_switch_expand nt)
  next
    case upscale
    then show ?thesis by (simp add: route_switch_upscale nt)
  next
    case enhance
    then show ?thesis by (simp add: route_switch_enhance nt)
  next
    case erase
    with mask_ok have "truthy_str m" by simp
    then obtain mk where mk: "m = Some mk" "mk \<noteq> []" by (rule truthy_strE)
    show ?thesis by (simp add: erase mk route_switch_erase nt)
  next
    case inpaint_remove
    then show ?thesis by (rule inp) simp
  next
    case inpaint_replace
    then show ?thesis by (rule inp) simp
  next
    case inpaint_add
    then show ?thesis by (rule inp) simp
  next
    case other
    from route_switch_other [OF other] dflt show ?thesis by simp
  qed
qed

lemma POST_no_token:
  assumes b: "reaches_client body" and tok: "\<not> truthy_str (BRIA_API_TOKEN e)"
  shows "fst (POST e (Inr body)) = []"
proof -
  from b obtain i where i: "rb_image body = Some i" "i \<noteq> []"
    unfolding reaches_client_def by (auto elim: truthy_strE)
  from b obtain params where par: "rb_params body = Some params"
    unfolding reaches_client_def by auto
  from b have mask_ok: "rb_operation body \<in> {Some ''erase_element'', Some ''inpaint_remove'',
      Some ''inpaint_replace'', Some ''inpaint_add''} \<longrightarrow> truthy_str (rb_mask body)"
    unfolding reaches_client_def by blast
  from route_switch_no_token [OF tok mask_ok] show ?thesis
    by (simp add: fst_POST_valid [OF i par])
qed

text \<open>
  Claim C1, as amended. For every request that contains an image and params and is
  not turned away for a missing mask, the operation selects the client function:
  \<open>background_remove\<close> calls \<open>removeBackground\<close>, \<open>background_blur\<close> calls
  \<open>blurBackground\<close>, \<open>background_replace\<close> calls \<open>replaceBackground\<close>,
  \<open>image_expand\<close> calls \<open>expandImage\<close>, \<open>image_upscale\<close> calls \<open>upscaleImage\<close>,
  \<open>hdr_enhance\<close> calls \<open>enhanceImage\<close>, \<open>erase_element\<close> calls \<open>eraseElements\<close>
  with the mask, and every other operation value calls \<open>generateImage\<close>; the
  handler sends exactly what that call sends. When the token is set, one request is
  sent, to the endpoint of the claimed case analysis (for \<open>generateImage\<close>: gen_fill
  exactly when a mask is present, image/generate otherwise), and two requests sent
  to different endpoints have different sets of body keys. Without a token no
  request is sent.
\<close>

theorem C1_dispatch:
  assumes b1: "reaches_client body" and b2: "reaches_client body2"
  shows "(let i = the (rb_image body); params = the (rb_params body); tok = BRIA_API_TOKEN e;
              sw = route_switch e i (rb_mask body) params (rb_prompt body) (rb_operation body)
          in (rb_operation body = Some ''background_remove'' \<longrightarrow>
                sw = await (removeBackground e i tok))
           \<and> (rb_operation body = Some ''background_blur'' \<longrightarrow>
                sw = await (blurBackground e i (Some (js_or_num (blur_intensity params) 50)) tok))
           \<and> (rb_operation body = Some ''background_replace'' \<longrightarrow>
                sw = await (replaceBackground e i
                         (js_or_str (new_background params)
                            (js_or_str (rb_prompt body) ''professional studio background'')) tok))
           \<and> (rb_operation body = Some ''image_expand'' \<longrightarrow>
                sw = await (expandImage e i (Some (js_or_str (expand_direction params) ''all''))
                         (Some (js_or_num (expand_amount params) 25)) (rb_prompt body) tok))
           \<and> (rb_operation body = Some ''image_upscale'' \<longrightarrow>
                sw = await (upscaleImage e i (Some (js_or_num (upscale_factor params) 2)) tok))
           \<and> (rb_operation body = Some ''hdr_enhance'' \<longrightarrow>
                sw = await (enhanceImage e i (Some (js_or_str (hdr_resolution params) ''2MP'')) tok))
           \<and> (rb_operation body = Some ''erase_element'' \<longrightarrow>
                (\<exists>m. rb_mask body = Some m \<and> sw = await (eraseElements e i m tok)))
           \<and> (rb_operation body \<notin> {Some ''background_remove'', Some ''background_blur'',
                  Some ''background_replace'', Some ''image_expand'', Some ''image_upscale'',
                  Some ''hdr_enhance'', Some ''erase_element''} \<longrightarrow>
                (\<exists>p. sw = await (generateImage e i (rb_mask body) params (Some p) tok)))
           \<and> fst (POST e (Inr body)) = fst sw)
       \<and> (truthy_str (BRIA_API_TOKEN e) \<longrightarrow>
            (\<exists>req. fst (POST e (Inr body)) = [req]
               \<and> req_url req = claimed_endpoint (rb_operation body) (truthy_str (rb_mask body))))
       \<and> (truthy_str (BRIA_API_TOKEN e) \<longrightarrow>
            (\<forall>r1 r2. fst (POST e (Inr body)) = [r1] \<and> fst (POST e (Inr body2)) = [r2]
                 \<and> req_url r1 \<noteq> req_url r2 \<longrightarrow> set (body_keys r1) \<noteq> set (body_keys r2)))
       \<and> (\<not> truthy_str (BRIA_API_TOKEN e) \<longrightarrow> fst (POST e (Inr body)) = [])"
proof -
  from b1 obtain i where i: "rb_image body = Some i" "i \<noteq> []"
    unfolding reaches_client_def by (auto elim: truthy_strE)
  from b1 obtain params where par: "rb_params body = Some params"
    unfolding reaches_client_def by auto
  from b1 have mask_ok: "rb_operation body \<in> {Some ''erase_element'', Some ''inpaint_remove'',
      Some ''inpaint_replace'', Some ''inpaint_add''} \<longrightarrow> truthy_str (rb_mask body)"
    unfolding reaches_client_def by blast
  let ?sw = "route_switch e i (rb_mask body) params (rb_prompt body) (rb_operation body)"
  let ?tok = "BRIA_API_TOKEN e"
  have erase: "rb_operation body = Some ''erase_element'' \<Longrightarrow>
      \<exists>m. rb_mask body = Some m \<and> ?sw = await (eraseElements e i m ?tok)"
  proof -
    assume op: "rb_operation body = Some ''erase_element''"
    with mask_ok have "truthy_str (rb_mask body)" by simp
    then obtain mk where mk: "rb_mask body = Some mk" "mk \<noteq> []" by (rule truthy_strE)
    then show ?thesis by (simp add: op route_switch_erase)
  qed
  have dflt: "\<exists>p. default_generation e i (rb_mask body) params (rb_prompt body) (rb_operation body)
      = await (generateImage e i (rb_mask body) params (Some p) ?tok)"
    unfolding default_generation_def Let_def by (rule exI) (rule refl)
  have gen: "rb_operation body \<notin> {Some ''background_remove'', Some ''background_blur'',
                  Some ''background_replace'', Some ''image_expand'', Some ''image_upscale'',
                  Some ''hdr_enhance'', Some ''erase_element''} \<Longrightarrow>
      \<exists>p. ?sw = await (generateImage e i (rb_mask body) params (Some p) ?tok)"
  proof -
    assume n: "rb_operation body \<notin> {Some ''background_remove'', Some ''background_blur'',
                  Some ''background_replace'', Some ''image_expand'', Some ''image_upscale'',
                  Some ''hdr_enhance'', Some ''erase_element''}"
    have "?sw = default_generation e i (rb_mask body) params (rb_prompt body) (rb_operation body)"
    proof (cases "rb_operation body \<in> {Some ''inpaint_remove'', Some ''inpaint_replace'',
        Some ''inpaint_add''}")
      case True
      with mask_ok have m: "truthy_str (rb_mask body)" by auto
      from True obtain o' where o: "rb_operation body = Some o'"
        "o' \<in> {''inpaint_remove'', ''inpaint_replace'', ''inpaint_add''}" by auto
      from route_switch_inpaint [OF m o(2)] show ?thesis by (simp add: o(1))
    next
      case False
      with n show ?thesis by (intro route_switch_other) auto
    qed
    with dflt show ?thesis by simp
  qed
  have A: "(rb_operation body = Some ''background_remove'' \<longrightarrow>
                ?sw = await (removeBackground e i ?tok))
           \<and> (rb_operation body = Some ''background_blur'' \<longrightarrow>
                ?sw = await (blurBackground e i (Some (js_or_num (blur_intensity params) 50)) ?tok))
           \<and> (rb_operation body = Some ''background_replace'' \<longrightarrow>
                ?sw = await (replaceBackground e i
                         (js_or_str (new_background params)
                            (js_or_str (rb_prompt body) ''professional studio background'')) ?tok))
           \<and> (rb_operation body = Some ''image_expand'' \<longrightarrow>
                ?sw = await (expandImage e i (Some (js_or_str (expand_direction params) ''all''))
                         (Some (js_or_num (expand_amount params) 25)) (rb_prompt body) ?tok))
           \<and> (rb_operation body = Some ''image_upscale'' \<longrightarrow>
                ?sw = await (upscaleImage e i (Some (js_or_num (upscale_factor params) 2)) ?tok))
           \<and> (rb_operation body = Some ''hdr_enhance'' \<longrightarrow>
                ?sw = await (enhanceImage e i (Some (js_or_str (hdr_resolution params) ''2MP'')) ?tok))
           \<and> (rb_operation body = Some ''erase_element'' \<longrightarrow>
                (\<exists>m. rb_mask body = Some m \<and> ?sw = await (eraseElements e i m ?tok)))
           \<and> (rb_operation body \<notin> {Some ''background_remove'', Some ''background_blur'',
                  Some ''background_replace'', Some ''image_expand'', Some ''image_upscale'',
                  Some ''hdr_enhance'', Some ''erase_element''} \<longrightarrow>
                (\<exists>p. ?sw = await (generateImage e i (rb_mask body) params (Some p) ?tok)))
           \<and> fst (POST e (Inr body)) = fst ?sw"
    using erase gen
    by (simp add: route_switch_remove route_switch_blur route_switch_replace route_switch_expand
        route_switch_upscale route_switch_enhance fst_POST_valid [OF i par])
  have B: "truthy_str ?tok \<longrightarrow>
            (\<exists>req. fst (POST e (Inr body)) = [req]
               \<and> req_url req = claimed_endpoint (rb_operation body) (truthy_str (rb_mask body)))"
  proof
    assume "truthy_str ?tok"
    from POST_conforms [OF b1 this] show "\<exists>req. fst (POST e (Inr body)) = [req]
               \<and> req_url req = claimed_endpoint (rb_operation body) (truthy_str (rb_mask body))"
      unfolding conforms_def by blast
  qed
  have C: "truthy_str ?tok \<longrightarrow>
            (\<forall>r1 r2. fst (POST e (Inr body)) = [r1] \<and> fst (POST e (Inr body2)) = [r2]
                 \<and> req_url r1 \<noteq> req_url r2 \<longrightarrow> set (body_keys r1) \<noteq> set (body_keys r2))"
  proof (intro impI allI, elim conjE)
    fix r1 r2
    assume tok: "truthy_str ?tok" and r: "fst (POST e (Inr body)) = [r1]"
      "fst (POST e (Inr body2)) = [r2]" and ne: "req_url r1 \<noteq> req_url r2"
    from POST_conforms [OF b1 tok] r(1) have m1: "(req_url r1, body_keys r1) \<in> set branch_shapes"
      unfolding conforms_def by auto
    from POST_conforms [OF b2 tok] r(2) have m2: "(req_url r2, body_keys r2) \<in> set branch_shapes"
      unfolding conforms_def by auto
    from shapes_differ_D [OF branch_shapes_differ m1 m2 ne]
    show "set (body_keys r1) \<noteq> set (body_keys r2)" .
  qed
  have D: "\<not> truthy_str ?tok \<longrightarrow> fst (POST e (Inr body)) = []"
    using POST_no_token [OF b1] by blast
  from A B C D show ?thesis by (simp add: Let_def i par)
qed


theorem C1_dispatch_witness:
  "reaches_client (sample_body ''hdr_enhance'' None)
   \<and> reaches_client (sample_body ''inpaint_add'' (Some ''MASK''))
   \<and> truthy_str (BRIA_API_TOKEN failing_env)
   \<and> (\<exists>req. fst (POST failing_env (Inr (sample_body ''hdr_enhance'' None))) = [req]
          \<and> req_url req = ''https://engine.prod.bria-api.com/v2/image/edit/enhance'')
   \<and> \<not> truthy_str (BRIA_API_TOKEN tokenless_env)
   \<and> fst (POST tokenless_env (Inr (sample_body ''hdr_enhance'' None))) = []"
proof -
  have h1: "reaches_client (sample_body ''hdr_enhance'' None)"
    by (simp add: reaches_client_def sample_body_def truthy_str_def)
  have h2: "reaches_client (sample_body ''inpaint_add'' (Some ''MASK''))"
    by (simp add: reaches_client_def sample_body_def truthy_str_def)
  have h3: "truthy_str (BRIA_API_TOKEN failing_env)"
    by (simp add: failing_env_def truthy_str_def)
  have ep: "claimed_endpoint (rb_operation (sample_body ''hdr_enhance'' None))
      (truthy_str (rb_mask (sample_body ''hdr_enhance'' None))) =
      ''https://engine.prod.bria-api.com/v2/image/edit/enhance''"
    by (simp add: claimed_endpoint_def sample_body_def)
  from C1_dispatch [OF h1 h2, of failing_env, THEN conjunct2, THEN conjunct1] h3
  have "\<exists>req. fst (POST failing_env (Inr (sample_body ''hdr_enhance'' None))) = [req]
          \<and> req_url req = ''https://engine.prod.bria-api.com/v2/image/edit/enhance''"
    unfolding ep by blast
  moreover have h4: "\<not> truthy_str (BRIA_API_TOKEN tokenless_env)"
    by (simp add: tokenless_env_def failing_env_def truthy_str_def)
  moreover from C1_dispatch [OF h1 h2, of tokenless_env, THEN conjunct2, THEN conjunct2,
      THEN conjunct2] h4
  have "fst (POST tokenless_env (Inr (sample_body ''hdr_enhance'' None))) = []" by blast
  ultimately show ?thesis using h1 h2 h3 by blast
qed

lemma generate_sends_example:
  "fst (generateImage failing_env ''data:image/png;base64,AAAA'' None sample_params
          (Some ''empty, background continues naturally'') (BRIA_API_TOKEN failing_env)) \<noteq> []"
  by (simp add: failing_env_def fst_generateImage_no_mask truthy_str_def)

text \<open>
  Claim C1 as stated fails in two places. With \<open>inpaint_remove\<close> and no mask the
  operation is none of the seven named ones, yet the handler answers 400 and sends
  nothing, where \<open>generateImage\<close> on the same arguments would have sent a request.
  And without a token an operation that does fall through to \<open>generateImage\<close>
  gets status 200 with no request to either endpoint.
\<close>

theorem C1_counterexample:
  "truthy_str (rb_image (sample_body ''inpaint_remove'' None))
   \<and> rb_params (sample_body ''inpaint_remove'' None) \<noteq> None
   \<and> rb_operation (sample_body ''inpaint_remove'' None) \<notin>
        {Some ''background_remove'', Some ''background_blur'', Some ''background_replace'',
         Some ''image_expand'', Some ''image_upscale'', Some ''hdr_enhance'', Some ''erase_element''}
   \<and> POST failing_env (Inr (sample_body ''inpaint_remove'' None)) =
        ([], \<lparr>nr_status = 400,
              nr_body = JObj [(''error'', JStr ''Please draw on the area you want to edit first! Use the brush tool to mark the region, then try again.''),
                              (''needsMask'', JBool True)]\<rparr>)
   \<and> fst (generateImage failing_env ''data:image/png;base64,AAAA'' None sample_params
            (Some ''empty, background continues naturally'') (BRIA_API_TOKEN failing_env)) \<noteq> []
   \<and> rb_operation (sample_body ''style_transfer'' None) \<notin>
        {Some ''background_remove'', Some ''background_blur'', Some ''background_replace'',
         Some ''image_expand'', Some ''image_upscale'', Some ''hdr_enhance'', Some ''erase_element''}
   \<and> fst (POST tokenless_env (Inr (sample_body ''style_transfer'' None))) = []
   \<and> nr_status (snd (POST tokenless_env (Inr (sample_body ''style_transfer'' None)))) = 200"
proof -
  have a: "POST failing_env (Inr (sample_body ''inpaint_remove'' None)) =
        ([], \<lparr>nr_status = 400,
              nr_body = JObj [(''error'', JStr ''Please draw on the area you want to edit first! Use the brush tool to mark the region, then try again.''),
                              (''needsMask'', JBool True)]\<rparr>)"
    by (simp add: POST_def sample_body_def truthy_str_def route_switch_def inpaint_needs_mask_def)
  have b: "POST tokenless_env (Inr (sample_body ''style_transfer'' None)) =
      ([], \<lparr>nr_status = 200,
            nr_body = result_body (mockGenerateResponse tokenless_env sample_params)\<rparr>)"
    by (simp add: POST_def sample_body_def truthy_str_def route_switch_def default_generation_def
        generateImage_def with_token_def await_def tokenless_env_def failing_env_def Let_def)
  show ?thesis
    using generate_sends_example
    by (simp add: a b) (simp add: sample_body_def truthy_str_def)
qed


section \<open>Properties of the mask history\<close>

lemma putImageData_same_size:
  assumes "well_formed c" "well_formed d" "same_size c d"
  shows "putImageData c d = d"
proof -
  let ?w = "img_width c" and ?h = "img_height c"
  from assms have len: "length (img_data c) = length (img_data d)"
    and wd: "img_width d = ?w" and hd: "img_height d = ?h"
    and lc: "length (img_data c) = 4 * (?w * ?h)"
    by (simp_all add: well_formed_def same_size_def)
  have "map (\<lambda>k. let p = k div 4; x = p mod ?w; y = p div ?w
                in if x < img_width d \<and> y < img_height d
                   then img_data d ! (4 * (y * img_width d + x) + k mod 4)
                   else img_data c ! k)
           [0..<length (img_data c)] = map (\<lambda>k. img_data d ! k) [0..<length (img_data c)]"
  proof (rule map_cong [OF refl])
    fix k assume "k \<in> set [0..<length (img_data c)]"
    then have k: "k < 4 * (?w * ?h)" using lc by simp
    then have w0: "0 < ?w" by (cases "?w = 0") auto
    from k have p: "k div 4 < ?w * ?h" by simp
    have x: "(k div 4) mod ?w < ?w" using w0 by simp
    from p have y: "(k div 4) div ?w < ?h"
      by (simp add: less_mult_imp_div_less mult.commute)
    have "4 * ((k div 4) div ?w * ?w + (k div 4) mod ?w) + k mod 4 = k"
      by simp
    with x y show "(let p = k div 4; x = p mod ?w; y = p div ?w
                in if x < img_width d \<and> y < img_height d
                   then img_data d ! (4 * (y * img_width d + x) + k mod 4)
                   else img_data c ! k) = img_data d ! k"
      by (simp add: Let_def wd hd)
  qed
  also have "\<dots> = img_data d" using len by (simp add: map_nth)
  finally show ?thesis using wd hd by (simp add: putImageData_def)
qed

lemma slice_to_take:
  "- 1 \<le> i \<Longrightarrow> slice_to xs (i + 1) = take (nat (i + 1)) xs"
  by (simp add: slice_to_def)

lemma saveToHistory_unfold:
  assumes "maskCanvas s = Some c" "- 1 \<le> historyIndex s"
  shows "saveToHistory s =
           (let pushed = take (nat (historyIndex s + 1)) (history s) @ [c];
                newHistory = (if length pushed > 50 then tl pushed else pushed)
            in s\<lparr>history := newHistory, historyIndex := int (length newHistory) - 1\<rparr>)"
  using assms by (simp add: saveToHistory_def getImageData_def slice_to_take)

lemma saveToHistory_Some:
  assumes "maskCanvas s = Some c" "- 1 \<le> historyIndex s" "length (history s) \<le> 50"
  shows "history (saveToHistory s) =
           (let kept = take (nat (historyIndex s + 1)) (history s)
            in (if length kept < 50 then kept else tl kept) @ [c])"
    and "historyIndex (saveToHistory s) = int (length (history (saveToHistory s))) - 1"
    and "length (history (saveToHistory s)) \<le> 50"
    and "maskCanvas (saveToHistory s) = Some c"
    and "hasMask (saveToHistory s) = hasMask s"
    and "isDrawing (saveToHistory s) = isDrawing s"
proof -
  define kept where "kept = take (nat (historyIndex s + 1)) (history s)"
  have kl: "length kept \<le> 50" using assms(3) by (simp add: kept_def)
  have sv: "saveToHistory s =
      (let pushed = kept @ [c]; newHistory = (if length pushed > 50 then tl pushed else pushed)
       in s\<lparr>history := newHistory, historyIndex := int (length newHistory) - 1\<rparr>)"
    unfolding kept_def by (rule saveToHistory_unfold [OF assms(1,2)])
  have h: "history (saveToHistory s) = (if length kept < 50 then kept else tl kept) @ [c]"
  proof (cases "length kept < 50")
    case True
    then show ?thesis by (simp add: sv Let_def)
  next
    case False
    then have "kept \<noteq> []" by auto
    then have "tl (kept @ [c]) = tl kept @ [c]" by (cases kept) auto
    with False show ?thesis by (simp add: sv Let_def)
  qed
  then show "history (saveToHistory s) =
           (let kept = take (nat (historyIndex s + 1)) (history s)
            in (if length kept < 50 then kept else tl kept) @ [c])"
    by (simp add: Let_def kept_def)
  show "historyIndex (saveToHistory s) = int (length (history (saveToHistory s))) - 1"
    by (simp add: sv Let_def)
  from kl show "length (history (saveToHistory s)) \<le> 50"
    unfolding h by (cases "length kept < 50") auto
  show "maskCanvas (saveToHistory s) = Some c" "hasMask (saveToHistory s) = hasMask s"
    "isDrawing (saveToHistory s) = isDrawing s"
    using assms by (simp_all add: sv Let_def)
qed

lemma set_history_save:
  assumes "maskCanvas s = Some c" "- 1 \<le> historyIndex s" "length (history s) \<le> 50"
  shows "set (history (saveToHistory s)) \<subseteq> insert c (set (history s))"
proof -
  let ?kept = "take (nat (historyIndex s + 1)) (history s)"
  have "set (tl ?kept) \<subseteq> set ?kept" by (cases ?kept) auto
  moreover have "set ?kept \<subseteq> set (history s)" by (rule set_take_subset)
  ultimately show ?thesis
    by (auto simp: saveToHistory_Some(1) [OF assms] Let_def)
qed

lemma history_inv_save:
  assumes "history_inv s"
  shows "history_inv (saveToHistory s)"
proof -
  from assms obtain c where c: "maskCanvas s = Some c" "well_formed c"
    "\<forall>d \<in> set (history s). same_size c d \<and> well_formed d"
    and i: "- 1 \<le> historyIndex s" and l: "length (history s) \<le> 50"
    by (auto simp: history_inv_def)
  note sv = saveToHistory_Some [OF c(1) i l]
  have ne: "history (saveToHistory s) \<noteq> []" by (simp add: sv(1) Let_def)
  have "\<forall>d \<in> set (history (saveToHistory s)). same_size c d \<and> well_formed d"
    using set_history_save [OF c(1) i l] c(2,3) by (auto simp: same_size_def)
  with sv(2,3,4) c(2) ne show ?thesis
    by (auto simp: history_inv_def)
qed

lemma history_inv_exportMask [simp]: "history_inv (exportMask h s) = history_inv s"
  by (simp add: history_inv_def exportMask_def)

lemma history_inv_isDrawing [simp]: "history_inv (s\<lparr>isDrawing := b\<rparr>) = history_inv s"
  by (simp add: history_inv_def)

lemma history_inv_hasMask [simp]: "history_inv (s\<lparr>hasMask := b\<rparr>) = history_inv s"
  by (simp add: history_inv_def)

lemma history_inv_maskChanges [simp]: "history_inv (s\<lparr>maskChanges := m\<rparr>) = history_inv s"
  by (simp add: history_inv_def)

lemma history_inv_canvas:
  assumes "history_inv s" "maskCanvas s = Some c" "well_formed c'" "same_size c c'"
  shows "history_inv (s\<lparr>maskCanvas := Some c'\<rparr>)"
  using assms by (auto simp: history_inv_def same_size_def)

lemma history_inv_drawStroke:
  assumes "history_inv s" "maskCanvas s = Some c" "length painted = length (img_data c)"
  shows "history_inv (drawStroke painted s)"
proof -
  from assms have "well_formed (c\<lparr>img_data := painted\<rparr>)" "same_size c (c\<lparr>img_data := painted\<rparr>)"
    by (auto simp: history_inv_def well_formed_def same_size_def)
  from history_inv_canvas [OF assms(1,2) this] assms(2) show ?thesis
    by (simp add: drawStroke_def)
qed

lemma history_inv_clearMask:
  assumes "history_inv s"
  shows "history_inv (clearMask s)"
proof -
  from assms obtain c where c: "maskCanvas s = Some c" "well_formed c"
    by (auto simp: history_inv_def)
  then have "well_formed (clearRect c)" "same_size c (clearRect c)"
    by (simp_all add: well_formed_def clearRect_def same_size_def)
  from history_inv_canvas [OF assms c(1) this]
  have "history_inv (saveToHistory (s\<lparr>maskCanvas := Some (clearRect c)\<rparr>))"
    by (rule history_inv_save)
  then show ?thesis by (simp add: clearMask_def c(1) Let_def)
qed

lemma undo_enabled:
  assumes "history_inv s" "0 < historyIndex s"
  shows "undo s = exportMask (hasMask s)
           (s\<lparr>maskCanvas := Some (history s ! nat (historyIndex s - 1)), hasMask := True,
              historyIndex := historyIndex s - 1\<rparr>)"
proof -
  from assms obtain c where c: "maskCanvas s = Some c" "well_formed c"
    "\<forall>d \<in> set (history s). same_size c d \<and> well_formed d"
    and l: "historyIndex s < int (length (history s))"
    by (auto simp: history_inv_def)
  let ?d = "history s ! nat (historyIndex s - 1)"
  from assms(2) l have "?d \<in> set (history s)" by simp
  with c have "putImageData c ?d = ?d" by (intro putImageData_same_size) auto
  with assms(2) l c(1) show ?thesis
    by (simp add: undo_def index_opt_def Let_def)
qed

lemma redo_enabled:
  assumes "history_inv s" "historyIndex s < int (length (history s)) - 1"
  shows "redo s = exportMask (hasMask s)
           (s\<lparr>maskCanvas := Some (history s ! nat (historyIndex s + 1)),
              historyIndex := historyIndex s + 1, hasMask := True\<rparr>)"
proof -
  from assms obtain c where c: "maskCanvas s = Some c" "well_formed c"
    "\<forall>d \<in> set (history s). same_size c d \<and> well_formed d"
    and l: "- 1 \<le> historyIndex s"
    by (auto simp: history_inv_def)
  let ?d = "history s ! nat (historyIndex s + 1)"
  from assms(2) l have "?d \<in> set (history s)" by simp
  with c have "putImageData c ?d = ?d" by (intro putImageData_same_size) auto
  with assms(2) l c(1) show ?thesis
    by (simp add: redo_def index_opt_def Let_def)
qed

lemma undo_disabled: "historyIndex s \<le> 0 \<Longrightarrow> undo s = s"
  by (simp add: undo_def)

lemma redo_disabled: "historyIndex s \<ge> int (length (history s)) - 1 \<Longrightarrow> redo s = s"
  by (simp add: redo_def)

lemma history_inv_undo:
  assumes "history_inv s"
  shows "history_inv (undo s)"
proof (cases "0 < historyIndex s")
  case True
  from assms obtain c where c: "maskCanvas s = Some c" "well_formed c"
    "\<forall>d \<in> set (history s). same_size c d \<and> well_formed d"
    and l: "historyIndex s < int (length (history s))" "length (history s) \<le> 50"
    by (auto simp: history_inv_def)
  let ?d = "history s ! nat (historyIndex s - 1)"
  from True l have "?d \<in> set (history s)" by simp
  with c True l have "history_inv (s\<lparr>maskCanvas := Some ?d, hasMask := True,
              historyIndex := historyIndex s - 1\<rparr>)"
    by (auto simp: history_inv_def same_size_def)
  then show ?thesis by (simp add: undo_enabled [OF assms True])
next
  case False
  with assms show ?thesis by (simp add: undo_disabled)
qed

lemma history_inv_redo:
  assumes "history_inv s"
  shows "history_inv (redo s)"
proof (cases "historyIndex s < int (length (history s)) - 1")
  case True
  from assms obtain c where c: "maskCanvas s = Some c" "well_formed c"
    "\<forall>d \<in> set (history s). same_size c d \<and> well_formed d"
    and l: "- 1 \<le> historyIndex s" "length (history s) \<le> 50"
    by (auto simp: history_inv_def)
  let ?d = "history s ! nat (historyIndex s + 1)"
  from True l have "?d \<in> set (history s)" by simp
  with c True l have "history_inv (s\<lparr>maskCanvas := Some ?d,
              historyIndex := historyIndex s + 1, hasMask := True\<rparr>)"
    by (auto simp: history_inv_def same_size_def)
  then show ?thesis by (simp add: redo_enabled [OF assms True])
next
  case False
  with assms show ?thesis by (simp add: redo_disabled)
qed

lemma history_inv_imageLoaded:
  assumes "history_inv s"
  shows "history_inv (imageLoaded w h s)"
  using assms
  by (auto simp: history_inv_def imageLoaded_def blank_canvas_def well_formed_def)

lemma reachable_history_inv: "reachable s \<Longrightarrow> history_inv s"
proof (induction rule: reachable.induct)
  case mounted
  show ?case
    by (simp add: history_inv_def mounted_editor_def blank_canvas_def well_formed_def)
next
  case (loaded s w h)
  then show ?case by (simp add: history_inv_imageLoaded)
next
  case (pointer_down s canvas painted)
  then have "history_inv (s\<lparr>isDrawing := True\<rparr>)" by simp
  from history_inv_drawStroke [OF this, of canvas painted] pointer_down show ?case
    by (simp add: handlePointerDown_def)
next
  case (pointer_move s canvas painted)
  then show ?case
    by (simp add: handlePointerMove_def history_inv_drawStroke)
next
  case (pointer_up s)
  then show ?case by (simp add: handlePointerUp_def history_inv_save)
next
  case (cleared s)
  then show ?case by (simp add: history_inv_clearMask)
next
  case (undone s)
  then show ?case by (simp add: history_inv_undo)
next
  case (redone s)
  then show ?case by (simp add: history_inv_redo)
qed


lemma loaded_state:
  "history (imageLoaded 1 1 mounted_editor) = []"
  "historyIndex (imageLoaded 1 1 mounted_editor) = - 1"
  "maskCanvas (imageLoaded 1 1 mounted_editor) = Some (blank_canvas 1 1)"
  "\<not> isDrawing (imageLoaded 1 1 mounted_editor)"
  by (simp_all add: imageLoaded_def mounted_editor_def)

lemma stroke_step:
  assumes c: "maskCanvas s = Some canvas" "img_width canvas = 1" "img_height canvas = 1"
    and i: "- 1 \<le> historyIndex s" and l: "length (history s) \<le> 50"
  shows "history (handlePointerUp (handlePointerDown (stroke_of n) s)) =
           (let kept = take (nat (historyIndex s + 1)) (history s)
            in (if length kept < 50 then kept else tl kept) @ [snapshot n])"
    and "historyIndex (handlePointerUp (handlePointerDown (stroke_of n) s)) =
           int (length (history (handlePointerUp (handlePointerDown (stroke_of n) s)))) - 1"
    and "maskCanvas (handlePointerUp (handlePointerDown (stroke_of n) s)) = Some (snapshot n)"
    and "isDrawing (handlePointerUp (handlePointerDown (stroke_of n) s)) = False"
proof -
  let ?d = "handlePointerDown (stroke_of n) s"
  have d: "maskCanvas ?d = Some (snapshot n)" "isDrawing ?d" "historyIndex ?d = historyIndex s"
    "history ?d = history s"
    using c by (cases canvas; simp add: handlePointerDown_def drawStroke_def snapshot_def)+
  from i l have "- 1 \<le> historyIndex ?d" "length (history ?d) \<le> 50" by (simp_all add: d)
  note sv = saveToHistory_Some [OF d(1) this]
  have up: "handlePointerUp ?d = (exportMask (hasMask ?d) (saveToHistory ?d))\<lparr>isDrawing := False\<rparr>"
    using d(2) by (simp add: handlePointerUp_def)
  show "history (handlePointerUp ?d) =
           (let kept = take (nat (historyIndex s + 1)) (history s)
            in (if length kept < 50 then kept else tl kept) @ [snapshot n])"
    by (simp add: up exportMask_def sv(1) d)
  show "historyIndex (handlePointerUp ?d) = int (length (history (handlePointerUp ?d))) - 1"
    by (simp add: up exportMask_def sv(2))
  show "maskCanvas (handlePointerUp ?d) = Some (snapshot n)"
    by (simp add: up exportMask_def sv(4))
  show "isDrawing (handlePointerUp ?d) = False"
    by (simp add: up)
qed

lemma paint_strokes_state:
  assumes s0: "history s0 = []" "historyIndex s0 = - 1" "maskCanvas s0 = Some (blank_canvas 1 1)"
    "\<not> isDrawing s0" "reachable s0"
    and n: "n \<le> 50"
  shows "history (paint_strokes n s0) = map snapshot [0..<n]
       \<and> historyIndex (paint_strokes n s0) = int n - 1
       \<and> maskCanvas (paint_strokes n s0) =
           Some (if n = 0 then blank_canvas 1 1 else snapshot (n - 1))
       \<and> \<not> isDrawing (paint_strokes n s0)
       \<and> reachable (paint_strokes n s0)"
  using n
proof (induction n)
  case 0
  show ?case using s0 by simp
next
  case (Suc n)
  let ?s = "paint_strokes n s0"
  let ?c = "if n = 0 then blank_canvas 1 1 else snapshot (n - 1)"
  from Suc have st: "history ?s = map snapshot [0..<n]" "historyIndex ?s = int n - 1"
    "maskCanvas ?s = Some ?c" "reachable ?s" by simp_all
  have dims: "img_width ?c = 1" "img_height ?c = 1" "length (img_data ?c) = 4"
    by (simp_all add: blank_canvas_def snapshot_def stroke_of_def)
  have i: "- 1 \<le> historyIndex ?s" and l: "length (history ?s) \<le> 50"
    using Suc.prems by (simp_all add: st)
  note step = stroke_step [OF st(3) dims(1,2) i l, of n]
  have k: "take (nat (historyIndex ?s + 1)) (history ?s) = map snapshot [0..<n]"
    by (simp add: st)
  have "reachable (handlePointerDown (stroke_of n) ?s)"
    by (rule reachable.pointer_down [OF st(4) st(3)]) (simp add: dims stroke_of_def)
  then have r: "reachable (handlePointerUp (handlePointerDown (stroke_of n) ?s))"
    by (rule reachable.pointer_up)
  have h: "history (handlePointerUp (handlePointerDown (stroke_of n) ?s)) = map snapshot [0..<Suc n]"
    using Suc.prems by (simp add: step(1) k Let_def)
  show ?case
    using r step(3,4) by (simp add: h step(2))
qed

lemma full_editor_state:
  "history full_editor = map snapshot [0..<50]"
  "historyIndex full_editor = 49"
  "maskCanvas full_editor = Some (snapshot 49)"
  "reachable full_editor"
  using paint_strokes_state [OF loaded_state reachable.loaded [OF reachable.mounted], of 50]
  by (simp_all add: full_editor_def)

lemma undo_full_editor:
  "reachable (undo full_editor)"
  "history (undo full_editor) = map snapshot [0..<50]"
  "historyIndex (undo full_editor) = 48"
proof -
  note inv = reachable_history_inv [OF full_editor_state(4)]
  have pos: "0 < historyIndex full_editor" by (simp add: full_editor_state)
  show "reachable (undo full_editor)" using full_editor_state(4) by (rule reachable.undone)
  show "history (undo full_editor) = map snapshot [0..<50]"
    "historyIndex (undo full_editor) = 48"
    by (simp_all add: undo_enabled [OF inv pos] exportMask_def full_editor_state)
qed

text \<open>
  Claim C4. The undo history is a bounded stack. In every reachable state the
  history holds at most 50 snapshots, and a call of \<open>saveToHistory\<close> with canvas
  content \<open>c\<close> (the current content when called from the pointer-up handler, the
  cleared content when called from \<open>clearMask\<close>) keeps the snapshots up to
  \<open>historyIndex\<close>, dropping the redo states, removes the oldest one when 50 are
  kept, appends \<open>c\<close>, stays within 50, and leaves \<open>historyIndex\<close> at
  \<open>history.length - 1\<close>.
\<close>

theorem C4_bounded_history:
  assumes "reachable s"
  shows "length (history s) \<le> 50
       \<and> (let s' = saveToHistory (s\<lparr>maskCanvas := Some c\<rparr>);
               kept = take (nat (historyIndex s + 1)) (history s)
           in history s' = (if length kept < 50 then kept else tl kept) @ [c]
            \<and> length (history s') \<le> 50
            \<and> historyIndex s' = int (length (history s')) - 1)"
proof -
  from reachable_history_inv [OF assms] have i: "- 1 \<le> historyIndex s"
    and l: "length (history s) \<le> 50" by (auto simp: history_inv_def)
  let ?s = "s\<lparr>maskCanvas := Some c\<rparr>"
  have "maskCanvas ?s = Some c" "- 1 \<le> historyIndex ?s" "length (history ?s) \<le> 50"
    using i l by simp_all
  note sv = saveToHistory_Some [OF this]
  from sv(1,2,3) l show ?thesis by (simp add: Let_def)
qed

theorem C4_bounded_history_witness:
  "reachable full_editor
   \<and> length (history full_editor) = 50 \<and> historyIndex full_editor = 49
   \<and> history (saveToHistory (full_editor\<lparr>maskCanvas := Some (snapshot 50)\<rparr>)) = map snapshot [1..<51]
   \<and> historyIndex (saveToHistory (full_editor\<lparr>maskCanvas := Some (snapshot 50)\<rparr>)) = 49
   \<and> reachable (undo full_editor)
   \<and> history (undo full_editor) = map snapshot [0..<50] \<and> historyIndex (undo full_editor) = 48
   \<and> history (saveToHistory ((undo full_editor)\<lparr>maskCanvas := Some (snapshot 50)\<rparr>)) =
        map snapshot [0..<49] @ [snapshot 50]
   \<and> historyIndex (saveToHistory ((undo full_editor)\<lparr>maskCanvas := Some (snapshot 50)\<rparr>)) = 49"
proof -
  have u: "[Suc 0..<51] = [Suc 0..<50] @ [50]"
    using upt_Suc_append [of "Suc 0" 50] by simp
  have t: "tl (map snapshot [0..<50]) @ [snapshot 50] = map snapshot [1..<51]"
    by (simp add: upt_rec [of 0 50] del: upt.simps) (simp add: u)
  have k: "take 49 (map snapshot [0..<50]) = map snapshot [0..<49]"
    by (simp add: take_map)
  from C4_bounded_history [OF full_editor_state(4), of "snapshot 50"]
  have a: "history (saveToHistory (full_editor\<lparr>maskCanvas := Some (snapshot 50)\<rparr>)) = map snapshot [1..<51]"
    and b: "historyIndex (saveToHistory (full_editor\<lparr>maskCanvas := Some (snapshot 50)\<rparr>)) = 49"
    by (simp_all add: Let_def full_editor_state t)
  from C4_bounded_history [OF undo_full_editor(1), of "snapshot 50"]
  have c: "history (saveToHistory ((undo full_editor)\<lparr>maskCanvas := Some (snapshot 50)\<rparr>)) =
        map snapshot [0..<49] @ [snapshot 50]"
    and d: "historyIndex (saveToHistory ((undo full_editor)\<lparr>maskCanvas := Some (snapshot 50)\<rparr>)) = 49"
    by (simp_all add: Let_def undo_full_editor k)
  from a b c d show ?thesis
    by (simp add: full_editor_state undo_full_editor)
qed








section \<open>Properties of the mask export\<close>

lemma length_export_loop [simp]: "length (export_loop i m e) = length e"
proof (induction i m e rule: export_loop.induct)
  case (1 i m e)
  show ?case
    by (subst export_loop.simps) (simp add: 1)
qed

lemma quad_update_nth:
  assumes "i + 3 < length e"
  shows "e[i := v, i + 1 := v, i + 2 := v, i + 3 := v] ! j =
           (if i \<le> j \<and> j \<le> i + 3 then v else e ! j)"
  using assms by (auto simp: nth_list_update)

lemma export_loop_nth:
  assumes "length e = length m" "4 dvd i" "4 dvd length m" "j < length m"
  shows "export_loop i m e ! j =
           (if i \<le> j \<and> m ! (4 * (j div 4) + 3) > 10 then 255 else e ! j)"
  using assms
proof (induction i m e rule: export_loop.induct)
  case (1 i m e)
  show ?case
  proof (cases "i < length m")
    case False
    with 1(5) show ?thesis by (subst export_loop.simps) simp
  next
    case True
    with 1(3,4) have i3: "i + 3 < length m" by (auto elim!: dvdE)
    define e' where "e' = (if i + 3 < length m \<and> m ! (i + 3) > 10
        then e[i := 255, i + 1 := 255, i + 2 := 255, i + 3 := 255] else e)"
    have le': "length e' = length m" using 1(2) by (simp add: e'_def)
    have d4: "4 dvd i + 4" using 1(3) by simp
    have step: "export_loop i m e = export_loop (i + 4) m e'"
      using True by (subst export_loop.simps) (simp add: e'_def)
    have IH: "export_loop (i + 4) m e' ! j =
        (if i + 4 \<le> j \<and> m ! (4 * (j div 4) + 3) > 10 then 255 else e' ! j)"
      using "1.IH" [OF True le' [unfolded e'_def] d4 1(4) 1(5)] by (simp add: e'_def)
    have e'j: "e' ! j = (if i \<le> j \<and> j \<le> i + 3 \<and> m ! (i + 3) > 10 then 255 else e ! j)"
      using i3 1(2) by (auto simp: e'_def nth_list_update)
    have blk: "4 * (j div 4) + 3 = i + 3" if "i \<le> j" "j \<le> i + 3"
      using that 1(3) by (auto elim!: dvdE)
    show ?thesis
      unfolding step IH e'j using blk by auto
  qed
qed

lemma length_black_pixels [simp]: "length (black_pixels n) = 4 * n"
  by (induction n) (simp_all add: black_pixels_def)

lemma black_pixels_Suc: "black_pixels (Suc n) = [0, 0, 0, 255] @ black_pixels n"
  by (simp add: black_pixels_def)

lemma black_pixels_nth:
  "j < 4 * n \<Longrightarrow> black_pixels n ! j = (if j mod 4 = 3 then 255 else 0)"
proof (induction n arbitrary: j)
  case 0
  then show ?case by simp
next
  case (Suc n)
  show ?case
  proof (cases "j < 4")
    case True
    then have "j = 0 \<or> j = 1 \<or> j = 2 \<or> j = 3" by auto
    then show ?thesis by (auto simp: black_pixels_Suc)
  next
    case False
    have "length [0 :: byte, 0, 0, 255] = 4" by simp
    with False have "black_pixels (Suc n) ! j = black_pixels n ! (j - 4)"
      unfolding black_pixels_Suc by (simp only: nth_append if_False)
    also have "\<dots> = (if (j - 4) mod 4 = 3 then 255 else 0)"
      using Suc.prems False by (intro Suc.IH) simp
    also have "(j - 4) mod 4 = j mod 4" using False by presburger
    finally show ?thesis .
  qed
qed

lemma binary_mask_nth:
  assumes "well_formed canvas" "j < 4 * (img_width canvas * img_height canvas)"
  shows "img_data (binary_mask canvas) ! j =
           (if img_data canvas ! (4 * (j div 4) + 3) > 10 then 255
            else if j mod 4 = 3 then 255 else 0)"
  using assms
  by (simp add: binary_mask_def getImageData_def well_formed_def export_loop_nth black_pixels_nth)

lemma length_binary_mask:
  "length (img_data (binary_mask canvas)) = 4 * (img_width canvas * img_height canvas)"
  by (simp add: binary_mask_def)

lemma take4_drop:
  assumes "4 * p + 3 < length xs"
  shows "take 4 (drop (4 * p) xs) = [xs ! (4 * p), xs ! (4 * p + 1), xs ! (4 * p + 2), xs ! (4 * p + 3)]"
proof -
  have "length (take 4 (drop (4 * p) xs)) = 4" using assms by simp
  then show ?thesis
    using assms
    by (auto simp: list_eq_iff_nth_eq nth_Cons' numeral_eq_Suc less_Suc_eq)
qed

text \<open>
  What \<open>exportMask\<close> passes on, given the canvas and the flag its closure holds.
  With a canvas and the flag set, the exported image has the size of the canvas and
  is binary: a pixel whose alpha on the canvas exceeds 10 is
  \<open>(255, 255, 255, 255)\<close> and every other pixel is \<open>(0, 0, 0, 255)\<close>. The result
  depends on the canvas through its alpha channel only. With the flag unset, or
  with no canvas, \<open>onMaskChange\<close> receives \<open>null\<close>.
\<close>

lemma binary_mask_pixels:
  assumes wf: "well_formed canvas" and p: "p < img_width canvas * img_height canvas"
  shows "exportMask_value (Some canvas) True = Some (binary_mask canvas)
       \<and> img_width (binary_mask canvas) = img_width canvas
       \<and> img_height (binary_mask canvas) = img_height canvas
       \<and> length (img_data (binary_mask canvas)) = 4 * (img_width canvas * img_height canvas)
       \<and> take 4 (drop (4 * p) (img_data (binary_mask canvas))) =
           (if img_data canvas ! (4 * p + 3) > 10 then [255, 255, 255, 255] else [0, 0, 0, 255])
       \<and> (\<forall>canvas'. well_formed canvas' \<and> same_size canvas canvas'
             \<and> (\<forall>q < img_width canvas * img_height canvas.
                   img_data canvas' ! (4 * q + 3) = img_data canvas ! (4 * q + 3))
             \<longrightarrow> binary_mask canvas' = binary_mask canvas)
       \<and> exportMask_value (Some canvas) False = None
       \<and> exportMask_value None has = None"
proof -
  let ?n = "img_width canvas * img_height canvas"
  let ?b = "img_data (binary_mask canvas)"
  from p have in_range: "4 * p + 3 < length ?b" by (simp add: length_binary_mask)
  have px: "?b ! (4 * p + k) =
      (if img_data canvas ! (4 * p + 3) > 10 then 255 else if k = 3 then 255 else 0)"
    if "k < 4" for k
  proof -
    from that p have "4 * p + k < 4 * ?n" by simp
    moreover from that have "(4 * p + k) div 4 = p" "(4 * p + k) mod 4 = k" by simp_all
    ultimately show ?thesis using binary_mask_nth [OF wf, of "4 * p + k"] by simp
  qed
  have pixel: "take 4 (drop (4 * p) ?b) =
      (if img_data canvas ! (4 * p + 3) > 10 then [255, 255, 255, 255] else [0, 0, 0, 255])"
    using px [of 0] px [of 1] px [of 2] px [of 3]
    by (simp add: take4_drop [OF in_range])
  have same: "binary_mask canvas' = binary_mask canvas"
    if wf': "well_formed canvas'" and ss: "same_size canvas canvas'"
      and al: "\<forall>q < ?n. img_data canvas' ! (4 * q + 3) = img_data canvas ! (4 * q + 3)"
    for canvas'
  proof -
    from ss have dims: "img_width canvas' = img_width canvas" "img_height canvas' = img_height canvas"
      by (simp_all add: same_size_def)
    have "img_data (binary_mask canvas') = ?b"
    proof (rule nth_equalityI)
      show "length (img_data (binary_mask canvas')) = length ?b"
        by (simp add: length_binary_mask dims)
    next
      fix j assume "j < length (img_data (binary_mask canvas'))"
      then have j: "j < 4 * ?n" by (simp add: length_binary_mask dims)
      then have "j div 4 < ?n" by simp
      with al have "img_data canvas' ! (4 * (j div 4) + 3) = img_data canvas ! (4 * (j div 4) + 3)"
        by blast
      with j show "img_data (binary_mask canvas') ! j = ?b ! j"
        by (simp add: binary_mask_nth [OF wf] binary_mask_nth [OF wf'] dims)
    qed
    then show ?thesis by (simp add: binary_mask_def dims)
  qed
  show ?thesis
    using pixel same
    by (simp add: exportMask_value_def length_binary_mask) (simp add: binary_mask_def)
qed

lemma sample_mask_example:
  "img_data (binary_mask sample_canvas) = [255, 255, 255, 255, 0, 0, 0, 255]"
  by code_simp

lemma binary_mask_pixels_sample:
  "well_formed sample_canvas
   \<and> (1 :: nat) < img_width sample_canvas * img_height sample_canvas
   \<and> exportMask_value (Some sample_canvas) True = Some (binary_mask sample_canvas)
   \<and> take 4 (drop (4 * 1) (img_data (binary_mask sample_canvas))) = [0, 0, 0, 255]"
proof -
  have wf: "well_formed sample_canvas" by (simp add: well_formed_def sample_canvas_def)
  have p: "(1 :: nat) < img_width sample_canvas * img_height sample_canvas"
    by (simp add: sample_canvas_def)
  have a: "\<not> img_data sample_canvas ! (4 * 1 + 3) > 10" by (simp add: sample_canvas_def)
  from binary_mask_pixels [OF wf p] a wf p show ?thesis by simp
qed

lemma replicate_four: "replicate 4 x = [x, x, x, x]"
  by (simp add: eval_nat_numeral)

lemma one_stroke_masks:
  "binary_mask \<lparr>img_width = 1, img_height = 1, img_data = stroke_a\<rparr> =
     \<lparr>img_width = 1, img_height = 1, img_data = [255, 255, 255, 255]\<rparr>"
  "binary_mask \<lparr>img_width = 1, img_height = 1, img_data = [0, 0, 0, 0]\<rparr> =
     \<lparr>img_width = 1, img_height = 1, img_data = [0, 0, 0, 255]\<rparr>"
  by code_simp+

lemma cleared_editor_state:
  "history cleared_editor = [\<lparr>img_width = 1, img_height = 1, img_data = stroke_a\<rparr>, blank_canvas 1 1]"
  "historyIndex cleared_editor = 1"
  "maskCanvas cleared_editor = Some (blank_canvas 1 1)"
  "hasMask cleared_editor = False"
  "maskChanges cleared_editor =
     [Some (binary_mask \<lparr>img_width = 1, img_height = 1, img_data = stroke_a\<rparr>), None]"
  by (simp_all add: cleared_editor_def clearMask_def clearRect_def handlePointerUp_def
      handlePointerDown_def drawStroke_def imageLoaded_def mounted_editor_def blank_canvas_def
      saveToHistory_def getImageData_def slice_to_def exportMask_def exportMask_value_def Let_def
      stroke_a_def replicate_four)

lemma reachable_cleared: "reachable cleared_editor"
  unfolding cleared_editor_def
  by (intro reachable.cleared reachable.pointer_up reachable.loaded reachable.mounted
      reachable.pointer_down [where canvas = "blank_canvas 1 1"])
    (simp_all add: imageLoaded_def mounted_editor_def blank_canvas_def stroke_a_def)

lemma stale_undo_unfold:
  "stale_undo_editor =
     cleared_editor\<lparr>maskCanvas := Some \<lparr>img_width = 1, img_height = 1, img_data = stroke_a\<rparr>,
       hasMask := True, historyIndex := 0,
       maskChanges := [Some (binary_mask \<lparr>img_width = 1, img_height = 1, img_data = stroke_a\<rparr>),
                       None, None]\<rparr>"
proof -
  note inv = reachable_history_inv [OF reachable_cleared]
  have pos: "0 < historyIndex cleared_editor" by (simp add: cleared_editor_state)
  show ?thesis
    unfolding stale_undo_editor_def
    by (simp add: undo_enabled [OF inv pos] exportMask_def exportMask_value_def cleared_editor_state)
qed

lemma stale_redo_unfold:
  "stale_redo_editor =
     cleared_editor\<lparr>maskCanvas := Some (blank_canvas 1 1),
       hasMask := True, historyIndex := 1,
       maskChanges := [Some (binary_mask \<lparr>img_width = 1, img_height = 1, img_data = stroke_a\<rparr>),
                       None, None, Some (binary_mask (blank_canvas 1 1))]\<rparr>"
proof -
  have r: "reachable stale_undo_editor"
    unfolding stale_undo_editor_def using reachable_cleared by (rule reachable.undone)
  note inv = reachable_history_inv [OF r]
  have en: "historyIndex stale_undo_editor < int (length (history stale_undo_editor)) - 1"
    by (simp add: stale_undo_unfold cleared_editor_state)
  show ?thesis
    unfolding stale_redo_editor_def
    by (simp add: redo_enabled [OF inv en] exportMask_def exportMask_value_def)
      (simp add: stale_undo_unfold cleared_editor_state)
qed

text \<open>
  Claim C6. The claim says that a drawn mask is exported as a binary image and that
  \<open>null\<close> is passed on when no mask is drawn. The pointer-up handler does so, but
  \<open>undo\<close> and \<open>redo\<close> call the \<open>exportMask\<close> of the render in which they were
  created, which reads the \<open>hasMask\<close> flag as it was before they set it. After one
  stroke (alpha 128), \<open>clearMask\<close> and undo, the canvas holds the stroke again and
  \<open>hasMask\<close> is set, while the calls of \<open>onMaskChange\<close> were: the white pixel,
  \<open>null\<close> (clearing), and \<open>null\<close> again for the undo. After the redo that
  follows, the canvas is blank and \<open>onMaskChange\<close> receives an all-black image
  instead of \<open>null\<close>.
\<close>

theorem C6_stale_export:
  "reachable stale_undo_editor
   \<and> maskCanvas stale_undo_editor = Some \<lparr>img_width = 1, img_height = 1, img_data = [255, 0, 0, 128]\<rparr>
   \<and> hasMask stale_undo_editor
   \<and> maskChanges stale_undo_editor =
       [Some \<lparr>img_width = 1, img_height = 1, img_data = [255, 255, 255, 255]\<rparr>, None, None]
   \<and> reachable stale_redo_editor
   \<and> maskCanvas stale_redo_editor = Some \<lparr>img_width = 1, img_height = 1, img_data = [0, 0, 0, 0]\<rparr>
   \<and> hasMask stale_redo_editor
   \<and> last (maskChanges stale_redo_editor) =
       Some \<lparr>img_width = 1, img_height = 1, img_data = [0, 0, 0, 255]\<rparr>"
proof -
  have r1: "reachable stale_undo_editor"
    unfolding stale_undo_editor_def using reachable_cleared by (rule reachable.undone)
  then have r2: "reachable stale_redo_editor"
    unfolding stale_redo_editor_def by (rule reachable.redone)
  have b: "blank_canvas 1 1 = \<lparr>img_width = 1, img_height = 1, img_data = [0, 0, 0, 0]\<rparr>"
    by (simp add: blank_canvas_def replicate_four)
  show ?thesis
    using r1 r2
    by (simp add: stale_undo_unfold stale_redo_unfold stroke_a_def
        one_stroke_masks [unfolded stroke_a_def, simplified] b [simplified])
qed

section \<open>Properties of the crop rectangle\<close>




























subsection \<open>The crop rectangle in double arithmetic\<close>

text \<open>The rounding \<open>double\<close>: \<open>bits n\<close> is the length of \<open>n\<close> in binary.\<close>

lemma bits_bounds:
  "0 < n \<Longrightarrow> 2 ^ (bits n - 1) \<le> n \<and> n < 2 ^ bits n"
proof (induction n rule: bits.induct)
  case (1 n)
  show ?case
  proof (cases "n div 2 = 0")
    case True
    with 1(2) have "n = 1" by (cases n) auto
    then show ?thesis by (simp add: bits.simps)
  next
    case False
    then have p: "0 < n div 2" by simp
    from 1(2) have n0: "n \<noteq> 0" by simp
    from 1(1) [OF n0 p] have ih: "2 ^ (bits (n div 2) - 1) \<le> n div 2" "n div 2 < 2 ^ bits (n div 2)"
      by simp_all
    have b: "bits n = Suc (bits (n div 2))" using n0 by (subst bits.simps) simp
    have bp: "0 < bits (n div 2)" using p by (subst bits.simps) simp
    then have e: "bits n - 1 = Suc (bits (n div 2) - 1)" using b by simp
    have k: "2 * 2 ^ (bits (n div 2) - 1) = (2 :: nat) ^ bits (n div 2)"
      using bp by (cases "bits (n div 2)") simp_all
    from ih(1) have "2 * 2 ^ (bits (n div 2) - 1) \<le> n" by simp
    then have "2 ^ bits (n div 2) \<le> n" by (simp only: k)
    moreover from ih(2) have "n < 2 * 2 ^ bits (n div 2)" by linarith
    ultimately show ?thesis by (simp add: b)
  qed
qed

lemma pow2_Suc: "pow2 (k + 1) = 2 * pow2 k"
proof (cases "0 \<le> k")
  case True
  then have "nat (k + 1) = Suc (nat k)" by simp
  with True show ?thesis by (simp add: pow2_def)
next
  case False
  then have "nat (- k) = Suc (nat (- (k + 1)))" by simp
  with False show ?thesis by (cases "k = -1") (simp_all add: pow2_def)
qed

lemma pow2_pos: "0 < pow2 k"
  by (simp add: pow2_def)

lemma pow2_nat: "pow2 (int n) = 2 ^ n"
  by (simp add: pow2_def)

lemma pow2_neg: "pow2 (- int n) = 1 / 2 ^ n"
  by (cases n) (simp_all add: pow2_def nat_add_distrib)

text \<open>\<open>binade x\<close> is the exponent of the power of two at or below \<open>\<bar>x\<bar>\<close>.\<close>

lemma binade_bounds:
  assumes "x \<noteq> 0"
  shows "pow2 (binade x) \<le> \<bar>x\<bar>" "\<bar>x\<bar> < pow2 (binade x + 1)"
proof -
  define a where "a = \<bar>x\<bar>"
  from assms have a0: "0 < a" by (simp add: a_def)
  have "pow2 (binade x) \<le> a \<and> a < pow2 (binade x + 1)"
  proof (cases "1 \<le> a")
    case True
    define n where "n = nat \<lfloor>a\<rfloor>"
    from True have n1: "0 < n" by (simp add: n_def; linarith?)
    have rn: "real n = of_int \<lfloor>a\<rfloor>" using True by (simp add: n_def)
    have na: "real n \<le> a" "a < real n + 1" unfolding rn by linarith+
    from bits_bounds [OF n1] have b: "2 ^ (bits n - 1) \<le> n" "n < 2 ^ bits n" by simp_all
    have bp: "0 < bits n" using n1 by (subst bits.simps) simp
    have e: "binade x = int (bits n - 1)"
      using True bp by (simp add: binade_def a_def n_def)
    from b(1) have "(2 :: real) ^ (bits n - 1) \<le> real n"
      by simp
    from order_trans [OF this na(1)] have l: "pow2 (binade x) \<le> a" by (simp add: e pow2_nat)
    from b(2) have "n + 1 \<le> 2 ^ bits n" by simp
    then have "real n + 1 \<le> 2 ^ bits n"
      by (simp flip: of_nat_le_iff [where ?'a = real])
    from less_le_trans [OF na(2) this] have "a < 2 ^ bits n" .
    moreover have "binade x + 1 = int (bits n)" using bp by (simp add: e)
    ultimately have "a < pow2 (binade x + 1)" by (simp add: pow2_nat)
    with l show ?thesis by simp
  next
    case False
    then have a1: "a < 1" by simp
    define m where "m = nat (\<lceil>1 / a\<rceil> - 1)"
    from a0 a1 have inv1: "1 < 1 / a" by simp
    then have c2: "2 \<le> \<lceil>1 / a\<rceil>" by linarith
    then have m1: "0 < m" by (simp add: m_def)
    have k0: "0 \<le> \<lceil>1 / a\<rceil> - 1" using c2 by linarith
    have rm: "real m = of_int \<lceil>1 / a\<rceil> - 1"
      unfolding m_def of_nat_nat [OF k0] by simp
    have ma: "real m < 1 / a" "1 / a \<le> real m + 1" unfolding rm by linarith+
    from bits_bounds [OF m1] have b: "2 ^ (bits m - 1) \<le> m" "m < 2 ^ bits m" by simp_all
    have bp: "0 < bits m" using m1 by (subst bits.simps) simp
    have e: "binade x = - int (bits m)"
      using False by (simp add: binade_def a_def m_def)
    from b(2) have "m + 1 \<le> 2 ^ bits m" by simp
    then have "real m + 1 \<le> 2 ^ bits m"
      by (simp flip: of_nat_le_iff [where ?'a = real])
    from order_trans [OF ma(2) this] have "1 / a \<le> 2 ^ bits m" .
    with a0 have "1 / 2 ^ bits m \<le> a"
      by (simp add: field_simps)
    then have l: "pow2 (binade x) \<le> a" by (simp add: e pow2_neg)
    from b(1) have "(2 :: real) ^ (bits m - 1) \<le> real m"
      by simp
    from le_less_trans [OF this ma(1)] have "2 ^ (bits m - 1) < 1 / a" .
    with a0 have "a < 1 / 2 ^ (bits m - 1)" by (simp add: field_simps)
    moreover have "binade x + 1 = - int (bits m - 1)" using bp by (simp add: e)
    ultimately have "a < pow2 (binade x + 1)" by (simp add: pow2_neg)
    with l show ?thesis by simp
  qed
  then show "pow2 (binade x) \<le> \<bar>x\<bar>" "\<bar>x\<bar> < pow2 (binade x + 1)" by (simp_all add: a_def)
qed

lemma round_even_error: "\<bar>of_int (round_even y) - y\<bar> \<le> 1 / 2"
  unfolding round_even_def Let_def by (auto simp: abs_if) linarith+

text \<open>\<open>double x\<close> is a multiple of the quantum of its binade, at most half a
  quantum from \<open>x\<close>, so its relative error is at most \<open>2 ^ (- 53)\<close> in the normal
  range.\<close>

lemma double_error:
  "\<bar>double x - x\<bar> \<le> pow2 (max (binade x) (- 1022) - 53)"
proof (cases "x = 0")
  case True
  then show ?thesis using pow2_pos [of "max (binade 0) (- 1022) - 53"] by (simp add: double_def)
next
  case False
  define q where "q = pow2 (max (binade x) (- 1022) - 52)"
  have q0: "0 < q" by (simp add: q_def pow2_pos)
  have h: "pow2 (max (binade x) (- 1022) - 53) = q / 2"
    using pow2_Suc [of "max (binade x) (- 1022) - 53"] by (simp add: q_def)
  have "double x - x = (of_int (round_even (x / q)) - x / q) * q"
    using False q0 by (simp add: double_def Let_def q_def [symmetric] field_simps)
  then have "\<bar>double x - x\<bar> = \<bar>of_int (round_even (x / q)) - x / q\<bar> * q"
    using q0 by (simp add: abs_mult)
  also have "\<dots> \<le> 1 / 2 * q"
    using round_even_error [of "x / q"] q0 by (intro mult_right_mono) simp_all
  finally show ?thesis by (simp add: h)
qed

text \<open>Evaluating \<open>double\<close> on numerals.\<close>

lemma bits_simps:
  "bits 0 = 0" "bits 1 = 1" "bits (Suc 0) = 1"
  "bits (numeral (num.Bit0 k)) = Suc (bits (numeral k))"
  "bits (numeral (num.Bit1 k)) = Suc (bits (numeral k))"
proof -
  show "bits 0 = 0" "bits 1 = 1" "bits (Suc 0) = 1" by (simp_all add: bits.simps)
  have "numeral (num.Bit0 k) div 2 = (numeral k :: nat)"
    by (simp add: numeral_Bit0_div_2)
  then show "bits (numeral (num.Bit0 k)) = Suc (bits (numeral k))"
    by (subst bits.simps) simp
  have "numeral (num.Bit1 k) div 2 = (numeral k :: nat)"
    by (simp add: numeral_Bit1_div_2)
  then show "bits (numeral (num.Bit1 k)) = Suc (bits (numeral k))"
    by (subst bits.simps) simp
qed

lemmas double_eval = double_def binade_def pow2_def round_even_def Let_def bits_simps

text \<open>A resize step from the east handle and one from the west handle, for any
  rounding.\<close>

lemma move_east:
  assumes "isCropping s" "\<not> isDraggingCrop s" "cropResizeHandle s = Some ''e''"
    and "rw \<noteq> 0" "rh \<noteq> 0"
  shows "handleCropMouseMove rnd W H (Some (rw, rh)) pos s =
           Some (s\<lparr>cropArea := (cropStartArea s)
                  \<lparr>rect_width :=
                     min (max 50 (rnd (rect_width (cropStartArea s)
                            + rnd (rnd (fst pos - fst (cropDragStart s)) * rnd (real W / rw)))))
                         (rnd (real W - rect_x (cropStartArea s)))\<rparr>,
                 hasCropChanges := True\<rparr>)"
  using assms by (simp add: handleCropMouseMove_def truthy_str_def Let_def)

lemma move_west:
  assumes "isCropping s" "\<not> isDraggingCrop s" "cropResizeHandle s = Some ''w''"
    and "rw \<noteq> 0" "rh \<noteq> 0"
  shows "handleCropMouseMove rnd W H (Some (rw, rh)) pos s =
           Some (s\<lparr>cropArea := (cropStartArea s)
                  \<lparr>rect_x := rnd (rect_x (cropStartArea s)
                       + max (- rect_x (cropStartArea s))
                           (min (rnd (rnd (fst pos - fst (cropDragStart s)) * rnd (real W / rw)))
                                (rnd (rect_width (cropStartArea s) - 50)))),
                   rect_width := rnd (rect_width (cropStartArea s)
                       - max (- rect_x (cropStartArea s))
                           (min (rnd (rnd (fst pos - fst (cropDragStart s)) * rnd (real W / rw)))
                                (rnd (rect_width (cropStartArea s) - 50))))\<rparr>,
                 hasCropChanges := True\<rparr>)"
  using assms by (simp add: handleCropMouseMove_def truthy_str_def Let_def)

lemma crop_init_double:
  "cropArea (initializeCrop double 1716 1716 idle_crop) =
     \<lparr>rect_x = 1509409562610893 / 8796093022208, rect_y = 1509409562610893 / 8796093022208,
      rect_width = 1509409562610893 / 1099511627776, rect_height = 1509409562610893 / 1099511627776\<rparr>"
  by (simp add: initializeCrop_def idle_crop_def double_eval)

lemma sum_numbers:
  "(1716 :: real) < 3629578431304981 / 2199023255552 + 287890950444503 / 4398046511104"
  "double (3629578431304981 / 2199023255552 + 287890950444503 / 4398046511104) = 1716 + 1 / 2 ^ 42"
  by (simp_all add: double_eval)


lemma init_fields:
  "isCropping (initializeCrop rnd W H s)"
  "isDraggingCrop (initializeCrop rnd W H s) = isDraggingCrop s"
  "cropResizeHandle (initializeCrop rnd W H s) = cropResizeHandle s"
  by (simp_all add: initializeCrop_def Let_def)

lemma down_handle:
  assumes "isCropping s" "h \<noteq> []"
  shows "handleCropMouseDown pos (Some h) s =
           s\<lparr>cropDragStart := pos, cropStartArea := cropArea s, cropResizeHandle := Some h\<rparr>"
  using assms by (simp add: handleCropMouseDown_def truthy_str_def Let_def)

lemma crop_east_state:
  "isCropping crop_east" "\<not> isDraggingCrop crop_east" "cropResizeHandle crop_east = None"
  "cropArea crop_east =
     \<lparr>rect_x = 1509409562610893 / 8796093022208, rect_y = 1509409562610893 / 8796093022208,
      rect_width = 3396171515874509 / 2199023255552, rect_height = 1509409562610893 / 1099511627776\<rparr>"
  "crop_session double 1716 1716 crop_east"
proof -
  let ?s0 = "initializeCrop double 1716 1716 idle_crop"
  let ?s1 = "handleCropMouseDown (0, 0) (Some ''e'') ?s0"
  have i0: "\<not> isDraggingCrop idle_crop" "cropResizeHandle idle_crop = None"
    by (simp_all add: idle_crop_def)
  have s1: "?s1 = ?s0\<lparr>cropDragStart := (0, 0), cropStartArea := cropArea ?s0,
      cropResizeHandle := Some ''e''\<rparr>"
    by (rule down_handle) (simp_all add: init_fields)
  have f1: "isCropping ?s1" "\<not> isDraggingCrop ?s1" "cropResizeHandle ?s1 = Some ''e''"
    by (simp_all add: s1 init_fields i0)
  have nz: "(1122 :: real) \<noteq> 0" by simp
  have mv: "handleCropMouseMove double 1716 1716 (Some (1122, 1122)) (5000, 0) ?s1 =
      Some (?s1\<lparr>cropArea :=
         \<lparr>rect_x = 1509409562610893 / 8796093022208, rect_y = 1509409562610893 / 8796093022208,
          rect_width = 3396171515874509 / 2199023255552,
          rect_height = 1509409562610893 / 1099511627776\<rparr>, hasCropChanges := True\<rparr>)"
    unfolding move_east [OF f1 nz nz, of double 1716 1716 "(5000, 0)"]
    by (simp add: s1 crop_init_double double_eval)
  have e: "crop_east = handleCropMouseUp (?s1\<lparr>cropArea :=
         \<lparr>rect_x = 1509409562610893 / 8796093022208, rect_y = 1509409562610893 / 8796093022208,
          rect_width = 3396171515874509 / 2199023255552,
          rect_height = 1509409562610893 / 1099511627776\<rparr>, hasCropChanges := True\<rparr>)"
    unfolding crop_east_def mv by simp
  show "isCropping crop_east" "\<not> isDraggingCrop crop_east" "cropResizeHandle crop_east = None"
    "cropArea crop_east =
     \<lparr>rect_x = 1509409562610893 / 8796093022208, rect_y = 1509409562610893 / 8796093022208,
      rect_width = 3396171515874509 / 2199023255552, rect_height = 1509409562610893 / 1099511627776\<rparr>"
    by (simp_all add: e handleCropMouseUp_def f1)
  have "crop_session double 1716 1716 ?s0" using i0 by (rule crop_session.session_started)
  then have "crop_session double 1716 1716 ?s1" by (rule crop_session.session_down)
  from crop_session.session_move [OF this mv]
  have "crop_session double 1716 1716 (the (handleCropMouseMove double 1716 1716
      (Some (1122, 1122)) (5000, 0) ?s1))"
    by (simp add: mv)
  then show "crop_session double 1716 1716 crop_east"
    unfolding crop_east_def by (rule crop_session.session_up)
qed

lemma crop_east_west_state:
  "cropArea crop_east_west =
     \<lparr>rect_x = 3629578431304981 / 2199023255552, rect_y = 1509409562610893 / 8796093022208,
      rect_width = 287890950444503 / 4398046511104, rect_height = 1509409562610893 / 1099511627776\<rparr>"
  "crop_session double 1716 1716 crop_east_west"
proof -
  let ?s3 = "handleCropMouseDown (0, 0) (Some ''w'') crop_east"
  have s3: "?s3 = crop_east\<lparr>cropDragStart := (0, 0), cropStartArea := cropArea crop_east,
      cropResizeHandle := Some ''w''\<rparr>"
    by (rule down_handle) (simp_all add: crop_east_state)
  have f3: "isCropping ?s3" "\<not> isDraggingCrop ?s3" "cropResizeHandle ?s3 = Some ''w''"
    by (simp_all add: s3 crop_east_state)
  have nz: "(1122 :: real) \<noteq> 0" by simp
  have mv: "handleCropMouseMove double 1716 1716 (Some (1122, 1122)) (967, 0) ?s3 =
      Some (?s3\<lparr>cropArea :=
         \<lparr>rect_x = 3629578431304981 / 2199023255552, rect_y = 1509409562610893 / 8796093022208,
          rect_width = 287890950444503 / 4398046511104,
          rect_height = 1509409562610893 / 1099511627776\<rparr>, hasCropChanges := True\<rparr>)"
    unfolding move_west [OF f3 nz nz, of double 1716 1716 "(967, 0)"]
    by (simp add: s3 crop_east_state double_eval)
  show "cropArea crop_east_west =
     \<lparr>rect_x = 3629578431304981 / 2199023255552, rect_y = 1509409562610893 / 8796093022208,
      rect_width = 287890950444503 / 4398046511104, rect_height = 1509409562610893 / 1099511627776\<rparr>"
    unfolding crop_east_west_def mv by simp
  have "crop_session double 1716 1716 ?s3"
    using crop_east_state(5) by (rule crop_session.session_down)
  from crop_session.session_move [OF this mv]
  show "crop_session double 1716 1716 crop_east_west"
    unfolding crop_east_west_def by (simp add: mv)
qed

text \<open>
  With the rounding of double arithmetic the right edge can be passed by a rounding
  error, also within one crop session on one image: on an image of 1716 by 1716
  shown at 1122 by 1122, the initial crop resized from the east handle to the right
  edge and then from the west handle by 967 pixels has
  \<open>x = 1650.5411764705882\<close> and \<open>width = 65.45882352941203\<close>, whose sum is above
  1716 and is \<open>1716.0000000000002\<close> when computed in doubles.
\<close>

lemma crop_rounding_example:
  "crop_session double 1716 1716 crop_east_west
   \<and> rect_x (cropArea crop_east_west) = 3629578431304981 / 2199023255552
   \<and> rect_width (cropArea crop_east_west) = 287890950444503 / 4398046511104
   \<and> 1716 < rect_x (cropArea crop_east_west) + rect_width (cropArea crop_east_west)
   \<and> double (rect_x (cropArea crop_east_west) + rect_width (cropArea crop_east_west))
       = 1716 + 1 / 2 ^ 42"
  using crop_east_west_state(2) sum_numbers
  by (simp add: crop_east_west_state(1))

section \<open>Properties of the Quick Actions panel\<close>

text \<open>
  Claim C7. The panel renders one button per entry of \<open>QUICK_ACTIONS\<close>, and each
  enabled button dispatches its identifier. The table has six entries: the type
  \<open>QuickAction\<close> has the identifier \<open>hdr_enhance\<close>, but no button offers it, so
  the theorem below records what the panel offers rather than the claimed seven
  buttons.
\<close>

theorem C7_six_buttons:
  "offered_actions =
     [''background_remove'', ''background_blur'', ''background_replace'', ''image_expand'',
      ''image_upscale'', ''erase_element'']
   \<and> map (click_button False False) [0, 1, 2, 3, 4, 5] = map Some offered_actions
   \<and> ''hdr_enhance'' \<in> set QuickAction_values
   \<and> ''hdr_enhance'' \<notin> set offered_actions
   \<and> click_button disabled isProcessing k \<noteq> Some ''hdr_enhance''"
proof -
  have ids: "offered_actions =
     [''background_remove'', ''background_blur'', ''background_replace'', ''image_expand'',
      ''image_upscale'', ''erase_element'']"
    by (simp add: offered_actions_def QUICK_ACTIONS_def)
  have len: "length QUICK_ACTIONS = 6" by (simp add: QUICK_ACTIONS_def)
  have clicks: "map (click_button False False) [0, 1, 2, 3, 4, 5] = map Some offered_actions"
    by (simp add: click_button_def len) (simp add: offered_actions_def QUICK_ACTIONS_def)
  have mem: "a \<in> set offered_actions" if "click_button disabled isProcessing k = Some a" for a
    using that by (auto simp: click_button_def offered_actions_def split: if_splits)
  have no: "''hdr_enhance'' \<notin> set offered_actions" by (simp add: ids)
  with mem have "click_button disabled isProcessing k \<noteq> Some ''hdr_enhance''" by blast
  with ids clicks no show ?thesis by (simp add: QuickAction_values_def)
qed

end
